theory Spec2Isabelle
  imports Complex_Main "HOL-Library.AList" "HOL-Library.List_Lexorder" "HOL-Library.Char_ord"
begin

section \<open>DiscordTikTokNotifier: the notification dispatcher and the monitoring service\<close>

text \<open>
  A shallow embedding of \<^verbatim>\<open>discord_webhook.py\<close> (class \<^verbatim>\<open>DiscordWebhook\<close>) and of
  \<^verbatim>\<open>monitoring_service.py\<close> (class \<^verbatim>\<open>MonitoringService\<close> with the three TikTokLive
  event handlers that \<^verbatim>\<open>connect_to_live_stream\<close> registers per user).

  Conventions.
  \<^item> Python dictionaries that the code iterates (\<^verbatim>\<open>last_status\<close>, \<^verbatim>\<open>currently_live\<close>) are
    association lists in insertion order; dictionaries that are only looked up are maps; Python
    sets are sets.
  \<^item> \<^verbatim>\<open>time.time()\<close> is a real number of seconds; \<^verbatim>\<open>datetime.now().isoformat()\<close> is a string,
    compared as Python compares strings (lexicographically, a proper prefix being smaller).
  \<^item> Everything the environment decides is an argument of the handler: the clock readings, the
    outcome of each HTTP request, the reply of the live-page probe.
  \<^item> Each handler returns the new service state and the list of effects it had on the outside
    world (posts to Discord, commands to the TikTokLive adapter), oldest first.
\<close>

subsection \<open>Python values and truthiness\<close>

type_synonym username = string
type_synonym stamp = string

text \<open>\<^verbatim>\<open>x or y\<close> on strings that may be \<^verbatim>\<open>None\<close>: \<^verbatim>\<open>None\<close> and \<^verbatim>\<open>''\<close> are both falsy.\<close>

definition truthy_str :: "string option \<Rightarrow> bool" where
  "truthy_str u = (case u of None \<Rightarrow> False | Some s \<Rightarrow> s \<noteq> [])"

text \<open>\<^verbatim>\<open>os.environ.get(key, '')\<close> for one variable of the environment.\<close>

definition env_get :: "string option \<Rightarrow> string" where
  "env_get v = (case v of None \<Rightarrow> [] | Some s \<Rightarrow> s)"

text \<open>\<^verbatim>\<open>url or os.environ.get(key, '')\<close>.\<close>

definition url_or_env :: "string option \<Rightarrow> string option \<Rightarrow> string" where
  "url_or_env u v = (if truthy_str u then the u else env_get v)"

text \<open>
  Attribute values of the duck-typed event objects of the adapter: \<^verbatim>\<open>None\<close>, a string or an
  integer. An attribute that the object does not have reads as \<^verbatim>\<open>None\<close> through
  \<^verbatim>\<open>getattr(obj, name, None)\<close>.
\<close>

datatype pyval = PNone | PStr string | PInt int

fun truthy :: "pyval \<Rightarrow> bool" where
  "truthy PNone = False"
| "truthy (PStr s) = (s \<noteq> [])"
| "truthy (PInt n) = (n \<noteq> 0)"

definition py_or :: "pyval \<Rightarrow> pyval \<Rightarrow> pyval" where
  "py_or a b = (if truthy a then a else b)"

text \<open>An object is the association list of its instance attributes (its \<^verbatim>\<open>__dict__\<close>).\<close>

type_synonym pyobj = "(string \<times> pyval) list"

definition getattr :: "pyobj \<Rightarrow> string \<Rightarrow> pyval" where
  "getattr obj name = (case map_of obj name of None \<Rightarrow> PNone | Some v \<Rightarrow> v)"

datatype py_error = ValueError | TypeError

subsection \<open>Effects on the outside world\<close>

text \<open>
  The three notifications of \<^verbatim>\<open>DiscordWebhook\<close>. Of the embed only the fields that the
  callers choose are kept (user, host flag, gift data); colours and clock strings are cosmetic.
\<close>

datatype notification =
    Start username bool
  | End username
  | Gift username pyval pyval pyval

text \<open>What \<^verbatim>\<open>requests.post\<close> followed by \<^verbatim>\<open>raise_for_status\<close> does.\<close>

datatype http_outcome = HttpOk | HttpError | RequestError | OtherError

text \<open>
  An effect: a notification handed to the dispatcher, with the URL it was posted to
  (\<^verbatim>\<open>None\<close> when \<^verbatim>\<open>send\<close> gave up before posting) and the boolean \<^verbatim>\<open>send\<close> returned; or a
  command to the adapter.
\<close>

datatype effect =
    Dispatch notification "string option" bool
  | AdapterConnect username
  | AdapterDisconnect username

subsection \<open>\<^verbatim>\<open>discord_webhook.py\<close>\<close>

record webhook =
  webhook_url :: string
  gift_webhook_url :: string

text \<open>\<^verbatim>\<open>DiscordWebhook.__init__\<close>; the two last arguments are the environment variables.\<close>

definition DiscordWebhook :: "string option \<Rightarrow> string option \<Rightarrow> string option \<Rightarrow> string option \<Rightarrow> webhook" where
  "DiscordWebhook url gift_url env_url env_gift_url =
     \<lparr> webhook_url = url_or_env url env_url,
       gift_webhook_url = url_or_env gift_url env_gift_url \<rparr>"

text \<open>
  \<^verbatim>\<open>send\<close>: no URL, no post and \<^verbatim>\<open>False\<close>; otherwise one post to \<^verbatim>\<open>self.webhook_url\<close>, and
  every exception of the request is caught and answered with \<^verbatim>\<open>False\<close>.
\<close>

definition send :: "webhook \<Rightarrow> http_outcome \<Rightarrow> string option \<times> bool" where
  "send w http =
     (if webhook_url w = [] then (None, False)
      else (Some (webhook_url w), http = HttpOk))"

definition send_go_live_notification :: "webhook \<Rightarrow> username \<Rightarrow> bool \<Rightarrow> http_outcome \<Rightarrow> effect \<times> bool" where
  "send_go_live_notification w user is_host http =
     (let (target, result) = send w http
      in (Dispatch (Start user is_host) target result, result))"

definition send_end_live_notification :: "webhook \<Rightarrow> username \<Rightarrow> http_outcome \<Rightarrow> effect \<times> bool" where
  "send_end_live_notification w user http =
     (let (target, result) = send w http
      in (Dispatch (End user) target result, result))"

text \<open>
  \<^verbatim>\<open>send_gift_notification\<close>. The quantity field is built with \<^verbatim>\<open>f'{gift_amount:,}'\<close>, which
  raises for a string, before anything is sent. Then the main URL is saved, replaced by the gift
  URL when there is one, the embed is sent, and the main URL is put back. The result is the
  webhook object after the call and either the exception or the effect and \<^verbatim>\<open>send\<close>'s answer.
\<close>

definition format_thousands :: "pyval \<Rightarrow> py_error + pyval" where
  "format_thousands v =
     (case v of PInt n \<Rightarrow> Inr (PInt n) | PStr s \<Rightarrow> Inl ValueError | PNone \<Rightarrow> Inl TypeError)"

definition send_gift_notification ::
  "webhook \<Rightarrow> username \<Rightarrow> pyval \<Rightarrow> pyval \<Rightarrow> pyval \<Rightarrow> http_outcome \<Rightarrow> webhook \<times> (py_error + effect \<times> bool)" where
  "send_gift_notification w user gift_type gift_amount gifter_username http =
     (case format_thousands gift_amount of
        Inl e \<Rightarrow> (w, Inl e)
      | Inr _ \<Rightarrow>
         (let original_webhook_url = webhook_url w;
              w1 = (if gift_webhook_url w \<noteq> [] then w\<lparr>webhook_url := gift_webhook_url w\<rparr> else w);
              (target, result) = send w1 http;
              w2 = w1\<lparr>webhook_url := original_webhook_url\<rparr>
          in (w2, Inr (Dispatch (Gift user gift_type gift_amount gifter_username) target result, result))))"

subsection \<open>\<^verbatim>\<open>monitoring_service.py\<close>: the service state\<close>

text \<open>One entry of \<^verbatim>\<open>last_status\<close> and one of \<^verbatim>\<open>current_live_users\<close>.\<close>

record status =
  is_live :: bool
  last_checked :: stamp
  status_connected_at :: "stamp option"

record live_entry =
  connected_at :: stamp
  room_id :: "string option"

datatype loop_state = NoLoop | LoopRunning | LoopStopped

text \<open>
  The fields of \<^verbatim>\<open>MonitoringService\<close>, the two environment variables it reads and writes, and
  what \<^verbatim>\<open>start\<close> creates: the scheduler's jobs and the threads running the event loop.
  Of \<^verbatim>\<open>live_clients\<close> only the keys are kept, the client objects being opaque.
\<close>

record engine =
  running :: bool
  last_status :: "(username \<times> status) list"
  current_live_users :: "(username \<times> live_entry) list"
  host_priority :: "username option"
  live_clients :: "username set"
  loop :: loop_state
  loop_threads :: nat
  scheduler_jobs :: "string list"
  scheduler_started :: bool
  svc_webhook_url :: "string option"
  svc_gift_webhook_url :: "string option"
  env_webhook_url :: "string option"
  env_gift_webhook_url :: "string option"
  connection_attempts :: "username \<rightharpoonup> real"
  notified_users :: "username set"
  successfully_connected :: "username set"
  connection_start_times :: "username \<rightharpoonup> real"
  pending_end_notifications :: "username \<rightharpoonup> real"
  end_notification_sent :: "username set"
  end_notification_cooldown :: "username \<rightharpoonup> real"

text \<open>\<^verbatim>\<open>__init__\<close>, in a process whose environment holds the two given variables.\<close>

definition init :: "string option \<Rightarrow> string option \<Rightarrow> engine" where
  "init env_url env_gift_url =
     \<lparr> running = False, last_status = [], current_live_users = [], host_priority = None,
       live_clients = {}, loop = NoLoop, loop_threads = 0, scheduler_jobs = [],
       scheduler_started = False, svc_webhook_url = None, svc_gift_webhook_url = None,
       env_webhook_url = env_url, env_gift_webhook_url = env_gift_url,
       connection_attempts = Map.empty, notified_users = {}, successfully_connected = {},
       connection_start_times = Map.empty, pending_end_notifications = Map.empty,
       end_notification_sent = {}, end_notification_cooldown = Map.empty \<rparr>"

text \<open>\<^verbatim>\<open>scheduler.add_job(..., id=job, replace_existing=True)\<close>.\<close>

definition add_job :: "string \<Rightarrow> string list \<Rightarrow> string list" where
  "add_job job jobs = (if job \<in> set jobs then jobs else jobs @ [job])"

text \<open>\<^verbatim>\<open>start\<close>: everything happens under \<^verbatim>\<open>if not self._running\<close>.\<close>

definition start :: "engine \<Rightarrow> string option \<Rightarrow> string option \<Rightarrow> engine" where
  "start s url gift_url =
     (if \<not> running s then
        (let s1 = (if truthy_str url
                   then s\<lparr>svc_webhook_url := url, env_webhook_url := url\<rparr>
                   else s\<lparr>svc_webhook_url := Some (env_get (env_webhook_url s))\<rparr>);
             s2 = (if truthy_str gift_url
                   then s1\<lparr>svc_gift_webhook_url := gift_url, env_gift_webhook_url := gift_url\<rparr>
                   else s1\<lparr>svc_gift_webhook_url := Some (env_get (env_gift_webhook_url s1))\<rparr>)
         in s2\<lparr>loop := LoopRunning, loop_threads := Suc (loop_threads s2),
               scheduler_jobs := add_job ''check_users'' (scheduler_jobs s2),
               scheduler_started := True, running := True\<rparr>)
      else s)"

definition is_running :: "engine \<Rightarrow> bool" where
  "is_running s = running s"

text \<open>
  \<^verbatim>\<open>stop\<close>: asks every client to disconnect, stops the loop, shuts the scheduler down (which
  drops its jobs) and resets the tracking.
\<close>

definition stop :: "engine \<Rightarrow> engine" where
  "stop s =
     (if running s then
        s\<lparr>live_clients := {},
          loop := (if loop s = NoLoop then NoLoop else LoopStopped),
          scheduler_jobs := [], scheduler_started := False, running := False,
          last_status := [], current_live_users := [], host_priority := None,
          notified_users := {}, successfully_connected := {},
          connection_start_times := Map.empty, pending_end_notifications := Map.empty,
          end_notification_sent := {}, end_notification_cooldown := Map.empty\<rparr>
      else s)"

subsection \<open>The handlers of \<^verbatim>\<open>connect_to_live_stream\<close>\<close>

text \<open>\<^verbatim>\<open>self.last_status.get(username, {}).get('is_live', False)\<close>.\<close>

definition was_live_of :: "(username \<times> status) list \<Rightarrow> username \<Rightarrow> bool" where
  "was_live_of ls user = (case map_of ls user of None \<Rightarrow> False | Some st \<Rightarrow> is_live st)"

text \<open>The webhook object the handlers build for live notifications.\<close>

definition live_webhook :: "engine \<Rightarrow> webhook" where
  "live_webhook s =
     DiscordWebhook (Some (url_or_env (svc_webhook_url s) (env_webhook_url s))) None
       (env_webhook_url s) (env_gift_webhook_url s)"

definition live_status :: "stamp \<Rightarrow> status" where
  "live_status t = \<lparr> is_live = True, last_checked = t, status_connected_at = Some t \<rparr>"

definition not_live_status :: "stamp \<Rightarrow> status" where
  "not_live_status t = \<lparr> is_live = False, last_checked = t, status_connected_at = None \<rparr>"

text \<open>
  \<^verbatim>\<open>on_connect\<close> for the user of the closure. \<open>now\<close> is \<^verbatim>\<open>time.time()\<close>, \<open>t\<close> is
  \<^verbatim>\<open>datetime.now().isoformat()\<close>, \<open>room\<close> the event's room id, \<open>http\<close> what the Discord request
  does if one is made.
\<close>

definition on_connect ::
  "engine \<Rightarrow> username \<Rightarrow> real \<Rightarrow> stamp \<Rightarrow> string option \<Rightarrow> http_outcome \<Rightarrow> engine \<times> effect list" where
  "on_connect s user now t room http =
     (let s1 = s\<lparr>successfully_connected := insert user (successfully_connected s),
                 connection_start_times := (connection_start_times s)(user \<mapsto> now),
                 current_live_users :=
                   AList.update user \<lparr>connected_at = t, room_id = room\<rparr> (current_live_users s),
                 connection_attempts := (connection_attempts s)(user := None)\<rparr>;
          was_live = was_live_of (last_status s1) user
      in if user \<in> notified_users s1 then
           (s1\<lparr>last_status := AList.update user (live_status t) (last_status s1)\<rparr>, [])
         else if \<not> was_live then
           (let currently_live_count = length (filter (\<lambda>(u, st). is_live st) (last_status s1));
                is_host = (currently_live_count = 0);
                (eff, result) = send_go_live_notification (live_webhook s1) user is_host http;
                s2 = (if result
                      then s1\<lparr>notified_users := insert user (notified_users s1),
                              end_notification_sent := end_notification_sent s1 - {user},
                              end_notification_cooldown := (end_notification_cooldown s1)(user := None)\<rparr>
                      else s1)
            in (s2\<lparr>last_status := AList.update user (live_status t) (last_status s2)\<rparr>, [eff]))
         else
           (s1\<lparr>last_status := AList.update user (live_status t) (last_status s1)\<rparr>, []))"

text \<open>The reply of the live-page request made after the five seconds' wait.\<close>

datatype probe = ProbeStatus int | ProbeFailed

definition forget_connection :: "username \<Rightarrow> engine \<Rightarrow> engine" where
  "forget_connection user s =
     s\<lparr>successfully_connected := successfully_connected s - {user},
       connection_start_times := (connection_start_times s)(user := None)\<rparr>"

definition drop_client :: "username \<Rightarrow> engine \<Rightarrow> engine" where
  "drop_client user s = s\<lparr>live_clients := live_clients s - {user}\<rparr>"

text \<open>
  \<^verbatim>\<open>on_disconnect\<close>. \<open>now\<close> is the clock when the guards are checked, \<open>later\<close> and \<open>t\<close> are
  \<^verbatim>\<open>time.time()\<close> and \<^verbatim>\<open>datetime.now().isoformat()\<close> after the wait and the probe. The handler
  is taken as one step: what other handlers do during its \<^verbatim>\<open>await\<close> is not interleaved.
  Every \<^verbatim>\<open>return\<close> inside the handler skips the final removal from \<^verbatim>\<open>live_clients\<close>.
\<close>

definition on_disconnect ::
  "engine \<Rightarrow> username \<Rightarrow> real \<Rightarrow> real \<Rightarrow> stamp \<Rightarrow> probe \<Rightarrow> http_outcome \<Rightarrow> engine \<times> effect list" where
  "on_disconnect s user now later t pr http =
     (let s1 = s\<lparr>current_live_users := AList.delete user (current_live_users s)\<rparr>
      in if user \<in> successfully_connected s1 \<and> user \<in> notified_users s1 then
           (if user \<in> end_notification_sent s1 then (forget_connection user s1, [])
            else
              (let last_end_time = (case end_notification_cooldown s1 user of None \<Rightarrow> 0 | Some e \<Rightarrow> e);
                   time_since_last = (if last_end_time > 0 then now - last_end_time else 999)
               in if time_since_last < 60 then (s1, [])
                  else if was_live_of (last_status s1) user then
                    (let connection_start = (case connection_start_times s1 user of None \<Rightarrow> 0 | Some c \<Rightarrow> c);
                         connection_duration = (if connection_start > 0 then now - connection_start else 0)
                     in if connection_duration < 30 then (forget_connection user s1, [])
                        else
                          (case pr of
                             ProbeFailed \<Rightarrow> (s1, [])
                           | ProbeStatus code \<Rightarrow>
                               if code = 200 then (s1, [])
                               else
                                 (let (eff, result) = send_end_live_notification (live_webhook s1) user http;
                                      s2 = (if result
                                            then s1\<lparr>end_notification_sent := insert user (end_notification_sent s1),
                                                    end_notification_cooldown := (end_notification_cooldown s1)(user \<mapsto> later)\<rparr>
                                            else s1);
                                      s3 = s2\<lparr>notified_users := notified_users s2 - {user},
                                              last_status := AList.update user (not_live_status t) (last_status s2)\<rparr>
                                  in (drop_client user (forget_connection user s3), [eff]))))
                  else (drop_client user (forget_connection user s1), [])))
         else (drop_client user (forget_connection user s1), []))"

subsection \<open>The gift handler\<close>

text \<open>
  A gift event as the handler probes it: the scalar attributes found on the event itself, the
  attribute \<^verbatim>\<open>gift\<close> and the attribute \<^verbatim>\<open>user\<close>, each of them absent (\<open>None\<close>), present and
  \<^verbatim>\<open>None\<close> (\<open>Some None\<close>) or an object. The handler's argument is \<open>None\<close> for a falsy event.
\<close>

record gift_event =
  ev_attrs :: pyobj
  ev_gift :: "pyobj option option"
  ev_user :: "pyobj option option"

text \<open>
  \<^verbatim>\<open>str(gift_name).isdigit() or 'id' in str(gift_name).lower()\<close>, on code points below 256
  (the digits of \<^verbatim>\<open>str.isdigit\<close> there are 0 to 9 and the superscripts 1, 2 and 3): the decimal
  form of an integer is all digits exactly when the integer is not negative, and never contains
  \<^verbatim>\<open>id\<close>.
\<close>

definition isdigit :: "string \<Rightarrow> bool" where
  "isdigit s = (s \<noteq> [] \<and> list_all (\<lambda>c. c \<in> set ''0123456789'' \<or> c \<in> {CHR 0xB2, CHR 0xB3, CHR 0xB9}) s)"

fun contains_id :: "string \<Rightarrow> bool" where
  "contains_id (a # b # r) =
     ((a \<in> set ''iI'' \<and> b \<in> set ''dD'') \<or> contains_id (b # r))"
| "contains_id _ = False"

fun looks_like_id :: "pyval \<Rightarrow> bool" where
  "looks_like_id (PStr s) = (isdigit s \<or> contains_id s)"
| "looks_like_id (PInt n) = (0 \<le> n)"
| "looks_like_id PNone = False"

definition gift_name_of :: "pyobj \<Rightarrow> pyval" where
  "gift_name_of gift =
     (let n1 = py_or (getattr gift ''name'') (py_or (getattr gift ''gift_name'')
                 (py_or (getattr gift ''giftName'') (py_or (getattr gift ''giftId'')
                   (py_or (getattr gift ''gift_id'') PNone))));
          n2 = (if \<not> truthy n1
                then py_or (getattr gift ''name'') (py_or (getattr gift ''gift_name'')
                       (py_or (getattr gift ''giftName'') PNone))
                else n1);
          n3 = (if \<not> truthy n2 then PStr ''Gift'' else n2)
      in if truthy n3 \<and> looks_like_id n3 then
           (let actual_name = py_or (getattr gift ''name'') (getattr gift ''gift_name'')
            in if truthy actual_name then actual_name else n3)
         else n3)"

definition repeat_count_of :: "pyobj \<Rightarrow> pyval" where
  "repeat_count_of gift =
     py_or (getattr gift ''repeat_count'') (py_or (getattr gift ''repeatCount'')
       (py_or (getattr gift ''count'') (py_or (getattr gift ''amount'')
         (py_or (getattr gift ''repeat_count'') (py_or (getattr gift ''count'') (PInt 1))))))"

definition gifter_username_of :: "pyobj \<Rightarrow> pyval" where
  "gifter_username_of gifter =
     py_or (getattr gifter ''unique_id'') (py_or (getattr gifter ''uniqueId'')
       (py_or (getattr gifter ''nickname'') (py_or (getattr gifter ''name'') (PStr []))))"

text \<open>
  The first half of \<^verbatim>\<open>on_gift\<close>: gift name, repeat count and gifter, starting from the defaults
  \<^verbatim>\<open>'Gift'\<close>, \<^verbatim>\<open>1\<close> and the empty string. The gift object is \<^verbatim>\<open>event.gift\<close> when the event has
  that attribute and the event itself otherwise.
\<close>

definition gift_object :: "gift_event \<Rightarrow> pyobj option" where
  "gift_object ev = (case ev_gift ev of None \<Rightarrow> Some (ev_attrs ev) | Some g \<Rightarrow> g)"

definition extract_gift :: "gift_event option \<Rightarrow> pyval \<times> pyval \<times> pyval" where
  "extract_gift event =
     (case event of
        None \<Rightarrow> (PStr ''Gift'', PInt 1, PStr [])
      | Some ev \<Rightarrow>
         (let gift = gift_object ev;
              (gift_name, repeat_count) =
                 (case gift of None \<Rightarrow> (PStr ''Gift'', PInt 1)
                  | Some g \<Rightarrow> (gift_name_of g, repeat_count_of g));
              gifter_username =
                 (case ev_user ev of None \<Rightarrow> PStr []
                  | Some None \<Rightarrow> PStr []
                  | Some (Some gifter) \<Rightarrow> gifter_username_of gifter)
          in (gift_name, repeat_count, gifter_username)))"

text \<open>
  The body of the handler under its \<^verbatim>\<open>try\<close>, and the handler: \<^verbatim>\<open>except Exception\<close> prints and
  returns. \<open>Inl\<close> is an exception leaving the function.
\<close>

definition on_gift_body :: "engine \<Rightarrow> username \<Rightarrow> gift_event option \<Rightarrow> http_outcome \<Rightarrow> py_error + effect list" where
  "on_gift_body s user event http =
     (let (gift_name, repeat_count, gifter_username) = extract_gift event;
          w = DiscordWebhook (Some (url_or_env (svc_webhook_url s) (env_webhook_url s)))
                (Some (url_or_env (svc_gift_webhook_url s) (env_gift_webhook_url s)))
                (env_webhook_url s) (env_gift_webhook_url s)
      in case snd (send_gift_notification w user gift_name repeat_count gifter_username http) of
           Inl e \<Rightarrow> Inl e
         | Inr (eff, result) \<Rightarrow> Inr [eff])"

definition on_gift :: "engine \<Rightarrow> username \<Rightarrow> gift_event option \<Rightarrow> http_outcome \<Rightarrow> py_error + effect list" where
  "on_gift s user event http =
     (case on_gift_body s user event http of Inl e \<Rightarrow> Inr [] | Inr effs \<Rightarrow> Inr effs)"

subsection \<open>\<^verbatim>\<open>connect_to_live_stream\<close> and \<^verbatim>\<open>check_users\<close>\<close>

text \<open>
  \<^verbatim>\<open>connect_to_live_stream\<close>, as far as the service state goes: nothing for a user who already
  has a client; otherwise the client is started and stored if the event loop is running.
\<close>

definition connect_to_live_stream :: "engine \<Rightarrow> username \<Rightarrow> engine \<times> effect list" where
  "connect_to_live_stream s user =
     (if user \<in> live_clients s then (s, [])
      else if loop s = LoopRunning
      then (s\<lparr>live_clients := insert user (live_clients s)\<rparr>, [AdapterConnect user])
      else (s, []))"

text \<open>
  The \<^verbatim>\<open>except\<close> branch of \<^verbatim>\<open>start_connection\<close>: the adapter's \<^verbatim>\<open>client.start()\<close> raised.
\<close>

definition connection_failed :: "engine \<Rightarrow> username \<Rightarrow> engine" where
  "connection_failed s user = forget_connection user (drop_client user s)"

text \<open>
  \<^verbatim>\<open>user_data.get('username', '').strip()\<close> and the removal of one leading \<^verbatim>\<open>@\<close>; \<open>None\<close> when
  the loop \<^verbatim>\<open>continue\<close>s on an empty name. A character stands for a code point below 256; the
  white space of \<^verbatim>\<open>str.strip\<close> in that range is listed.
\<close>

definition is_space :: "char \<Rightarrow> bool" where
  "is_space c = (c \<in> {CHR '' '', CHR 0x09, CHR 0x0A, CHR 0x0B, CHR 0x0C, CHR 0x0D,
                      CHR 0x1C, CHR 0x1D, CHR 0x1E, CHR 0x1F, CHR 0x85, CHR 0xA0})"

definition strip :: "string \<Rightarrow> string" where
  "strip s = rev (dropWhile is_space (rev (dropWhile is_space s)))"

definition normalize_username :: "string \<Rightarrow> username option" where
  "normalize_username raw =
     (let u = strip raw
      in if u = [] then None
         else if hd u = CHR ''@'' then Some (tl u) else Some u)"

text \<open>The local variables of \<^verbatim>\<open>check_users\<close> that its first loop fills.\<close>

record poll_acc =
  eng :: engine
  currently_live :: "(username \<times> live_entry) list"
  new_live_users :: "(username \<times> stamp) list"
  ended_live_users :: "username list"
  effects :: "effect list"

text \<open>
  The connection step of the loop body: a connection attempt for a user without a client whose
  last attempt is more than 15 seconds old (or unknown), a disconnect request for a client whose
  user is not live. \<^verbatim>\<open>run_coroutine_threadsafe\<close> raises without an event loop, and then the
  client stays in \<^verbatim>\<open>live_clients\<close>.
\<close>

definition refresh_connection :: "engine \<Rightarrow> username \<Rightarrow> bool \<Rightarrow> real \<Rightarrow> engine \<times> effect list" where
  "refresh_connection s user live now =
     (let last_attempt = (case connection_attempts s user of None \<Rightarrow> 0 | Some a \<Rightarrow> a);
          time_since_attempt = (if last_attempt \<noteq> 0 then now - last_attempt else 999)
      in if user \<notin> live_clients s \<and> time_since_attempt > 15 then
           connect_to_live_stream (s\<lparr>connection_attempts := (connection_attempts s)(user \<mapsto> now)\<rparr>) user
         else if \<not> live \<and> user \<in> live_clients s then
           (if loop s = NoLoop then (s, [])
            else (drop_client user s, [AdapterDisconnect user]))
         else (s, []))"

text \<open>
  The body of \<^verbatim>\<open>for user_data in users\<close>. One clock reading \<open>now\<close> and one
  \<^verbatim>\<open>isoformat\<close> string \<open>t\<close> serve the whole cycle.
\<close>

definition check_one :: "real \<Rightarrow> stamp \<Rightarrow> poll_acc \<Rightarrow> string \<Rightarrow> poll_acc" where
  "check_one now t acc raw =
     (case normalize_username raw of
        None \<Rightarrow> acc
      | Some user \<Rightarrow>
         (let s = eng acc;
              was_live = was_live_of (last_status s) user;
              live = (map_of (current_live_users s) user \<noteq> None);
              (s1, effs) = refresh_connection s user live now;
              acc1 = acc\<lparr>effects := effects acc @ effs\<rparr>
          in if live then
               (let entry = \<lparr>connected_at = (case map_of (current_live_users s1) user of
                                                None \<Rightarrow> t | Some e \<Rightarrow> connected_at e),
                             room_id = None\<rparr>;
                    cl = AList.update user entry (currently_live acc);
                    (s2, nl) =
                       (if \<not> was_live \<and> user \<notin> notified_users s1 then
                          (s1, new_live_users acc @ [(user, connected_at entry)])
                        else if was_live \<and> user \<in> notified_users s1 then
                          (s1, new_live_users acc)
                        else if \<not> was_live \<and> user \<in> notified_users s1 then
                          (s1\<lparr>notified_users := notified_users s1 - {user}\<rparr>,
                           new_live_users acc @ [(user, connected_at entry)])
                        else (s1, new_live_users acc))
                in acc1\<lparr>eng := s2\<lparr>last_status :=
                                    AList.update user \<lparr>is_live = True, last_checked = t, status_connected_at = None\<rparr>
                                      (last_status s2)\<rparr>,
                        currently_live := cl, new_live_users := nl\<rparr>)
             else if was_live \<and> user \<in> successfully_connected s1 \<and> user \<in> notified_users s1
                     \<and> user \<notin> live_clients s1 then
               (let connection_start = (case connection_start_times s1 user of None \<Rightarrow> 0 | Some c \<Rightarrow> c);
                    connection_duration = (if connection_start > 0 then now - connection_start else 0)
                in if connection_duration \<ge> 10
                   then acc1\<lparr>eng := s1, ended_live_users := ended_live_users acc @ [user]\<rparr>
                   else acc1\<lparr>eng := s1\<rparr>)
             else if was_live \<and> user \<notin> notified_users s1 then
               acc1\<lparr>eng := forget_connection user
                              (s1\<lparr>last_status := AList.update user (not_live_status t) (last_status s1)\<rparr>)\<rparr>
             else
               acc1\<lparr>eng := s1\<lparr>last_status := AList.update user (not_live_status t) (last_status s1)\<rparr>\<rparr>))"

text \<open>
  Host election: the loop over \<^verbatim>\<open>currently_live.items()\<close> that keeps the entry with the
  smallest \<^verbatim>\<open>connected_at\<close>, the first one among equals.
\<close>

definition elect_step :: "username option \<times> stamp option \<Rightarrow> username \<times> live_entry \<Rightarrow> username option \<times> stamp option" where
  "elect_step best item =
     (case snd best of
        None \<Rightarrow> (Some (fst item), Some (connected_at (snd item)))
      | Some earliest \<Rightarrow>
          if connected_at (snd item) < earliest
          then (Some (fst item), Some (connected_at (snd item)))
          else best)"

definition elect_host :: "(username \<times> live_entry) list \<Rightarrow> username option" where
  "elect_host cl = fst (foldl elect_step (None, None) cl)"

text \<open>
  The loop over \<^verbatim>\<open>users_to_notify\<close>; \<open>n\<close> is \<^verbatim>\<open>len(currently_live)\<close>, \<open>http k\<close> the outcome of the
  \<open>k\<close>-th Discord request of the cycle and \<open>k\<close> the number of requests made so far.
\<close>

fun notify_new_live ::
  "engine \<Rightarrow> nat \<Rightarrow> (nat \<Rightarrow> http_outcome) \<Rightarrow> nat \<Rightarrow> (username \<times> stamp) list \<Rightarrow> engine \<times> effect list" where
  "notify_new_live s n http k [] = (s, [])"
| "notify_new_live s n http k (user_data # rest) =
     (let user = fst user_data;
          is_host = (host_priority s = Some user \<and> n > 1)
      in if user \<in> notified_users s then notify_new_live s n http k rest
         else if user \<notin> live_clients s then
           (let (eff, result) = send_go_live_notification (live_webhook s) user is_host (http k);
                s1 = (if result then s\<lparr>notified_users := insert user (notified_users s)\<rparr> else s);
                (s2, effs) = notify_new_live s1 n http (Suc k) rest
            in (s2, eff # effs))
         else notify_new_live s n http k rest)"

text \<open>
  \<^verbatim>\<open>check_users\<close> on the watch list \<open>users\<close> (the \<^verbatim>\<open>username\<close> entry of each item of the JSON
  file, \<^verbatim>\<open>''\<close> when missing). The last loop, over \<^verbatim>\<open>ended_live_users\<close>, only prints.
\<close>

definition check_users ::
  "engine \<Rightarrow> string list \<Rightarrow> real \<Rightarrow> stamp \<Rightarrow> (nat \<Rightarrow> http_outcome) \<Rightarrow> engine \<times> effect list" where
  "check_users s users now t http =
     (let s0 = (if \<not> truthy_str (svc_webhook_url s)
                then s\<lparr>svc_webhook_url := Some (env_get (env_webhook_url s))\<rparr> else s)
      in if \<not> truthy_str (svc_webhook_url s0) then (s0, [])
         else if users = [] then (s0, [])
         else
           (let acc = foldl (check_one now t)
                        \<lparr>eng = s0, currently_live = [], new_live_users = [],
                         ended_live_users = [], effects = []\<rparr> users;
                s1 = (eng acc)\<lparr>host_priority := elect_host (currently_live acc)\<rparr>;
                users_to_notify =
                  (if length (currently_live acc) > 1
                   then filter (\<lambda>user_data. Some (fst user_data) = host_priority s1) (new_live_users acc)
                   else new_live_users acc);
                (s2, effs) = notify_new_live s1 (length (currently_live acc)) http 0 users_to_notify
            in (s2\<lparr>current_live_users := currently_live acc\<rparr>, effects acc @ effs)))"

subsection \<open>Serialized histories\<close>

text \<open>
  The events that reach the service, each with what the environment decides during its
  handling, and the run of the service over a list of events, which collects the effects.
\<close>

datatype event =
    Connect username real stamp "string option" http_outcome
  | Disconnect username real real stamp probe http_outcome
  | Poll "string list" real stamp "nat \<Rightarrow> http_outcome"
  | GiftReceived username "gift_event option" http_outcome
  | ConnectionFailed username

fun step :: "engine \<Rightarrow> event \<Rightarrow> engine \<times> effect list" where
  "step s (Connect user now t room http) = on_connect s user now t room http"
| "step s (Disconnect user now later t pr http) = on_disconnect s user now later t pr http"
| "step s (Poll users now t http) = check_users s users now t http"
| "step s (GiftReceived user ev http) =
     (s, case on_gift s user ev http of Inl e \<Rightarrow> [] | Inr effs \<Rightarrow> effs)"
| "step s (ConnectionFailed user) = (connection_failed s user, [])"

fun run :: "engine \<Rightarrow> event list \<Rightarrow> engine \<times> effect list" where
  "run s [] = (s, [])"
| "run s (e # es) =
     (let (s1, effs1) = step s e; (s2, effs2) = run s1 es in (s2, effs1 @ effs2))"

subsection \<open>Vocabulary of the properties\<close>

text \<open>
  The probed attribute names, and what it means for a payload to lack a gift name, a repeat
  count or a gifter name: none of the probed attributes holds a truthy value.
\<close>

definition name_attrs :: "string list" where
  "name_attrs = [''name'', ''gift_name'', ''giftName'', ''giftId'', ''gift_id'']"

definition count_attrs :: "string list" where
  "count_attrs = [''repeat_count'', ''repeatCount'', ''count'', ''amount'']"

definition gifter_attrs :: "string list" where
  "gifter_attrs = [''unique_id'', ''uniqueId'', ''nickname'', ''name'']"

definition lacks :: "string list \<Rightarrow> pyobj option \<Rightarrow> bool" where
  "lacks names obj = (case obj of None \<Rightarrow> True | Some g \<Rightarrow> list_all (\<lambda>k. \<not> truthy (getattr g k)) names)"

definition gifter_object :: "gift_event \<Rightarrow> pyobj option" where
  "gifter_object ev = (case ev_user ev of None \<Rightarrow> None | Some u \<Rightarrow> u)"

text \<open>
  The first truthy value of a list of attribute values, with a default: what a chain
  \<^verbatim>\<open>a or b or ... or default\<close> yields when the default is truthy.
\<close>

fun first_truthy :: "pyval list \<Rightarrow> pyval \<Rightarrow> pyval" where
  "first_truthy [] d = d"
| "first_truthy (v # vs) d = (if truthy v then v else first_truthy vs d)"

text \<open>
  Where a gift notification of the service goes: to the gift URL when one is configured, to the
  main URL otherwise, nowhere when neither is.
\<close>

definition gift_target :: "engine \<Rightarrow> string option" where
  "gift_target s =
     (if url_or_env (svc_gift_webhook_url s) (env_gift_webhook_url s) \<noteq> []
      then Some (url_or_env (svc_gift_webhook_url s) (env_gift_webhook_url s))
      else if url_or_env (svc_webhook_url s) (env_webhook_url s) \<noteq> []
      then Some (url_or_env (svc_webhook_url s) (env_webhook_url s))
      else None)"

text \<open>
  The gates of the end sequence in \<^verbatim>\<open>on_disconnect\<close>, as predicates on the state in which the
  handler starts: the two membership tests, the already-ended guard, the cooldown guard, the
  live mark, the minimum duration and the probe.
\<close>

definition cooldown_active :: "engine \<Rightarrow> username \<Rightarrow> real \<Rightarrow> bool" where
  "cooldown_active s user now =
     (case end_notification_cooldown s user of
        None \<Rightarrow> False
      | Some last_end_time \<Rightarrow> last_end_time > 0 \<and> now - last_end_time < 60)"

definition connection_too_short :: "engine \<Rightarrow> username \<Rightarrow> real \<Rightarrow> bool" where
  "connection_too_short s user now =
     (case connection_start_times s user of
        None \<Rightarrow> True
      | Some connection_start \<Rightarrow> \<not> (connection_start > 0 \<and> now - connection_start \<ge> 30))"

definition probe_says_ended :: "probe \<Rightarrow> bool" where
  "probe_says_ended pr = (case pr of ProbeFailed \<Rightarrow> False | ProbeStatus code \<Rightarrow> code \<noteq> 200)"

definition end_gates_pass :: "engine \<Rightarrow> username \<Rightarrow> real \<Rightarrow> probe \<Rightarrow> bool" where
  "end_gates_pass s user now pr =
     (user \<in> successfully_connected s \<and> user \<in> notified_users s
      \<and> user \<notin> end_notification_sent s \<and> \<not> cooldown_active s user now
      \<and> was_live_of (last_status s) user \<and> \<not> connection_too_short s user now
      \<and> probe_says_ended pr)"

text \<open>Whether a dispatch through the live webhook of the state succeeds.\<close>

definition dispatch_succeeds :: "engine \<Rightarrow> http_outcome \<Rightarrow> bool" where
  "dispatch_succeeds s http = snd (send (live_webhook s) http)"

text \<open>
  Reading a history of effects for one broadcaster. \<open>starts_once strict b opened effs\<close>: no
  start notification for \<open>b\<close> is dispatched while a session of \<open>b\<close> is open; a session is opened
  by a start dispatch that succeeded and closed by an end dispatch (by a successful one only,
  when \<open>strict\<close>). \<open>session_open\<close> is the flag after the history.
\<close>

fun session_open :: "bool \<Rightarrow> username \<Rightarrow> bool \<Rightarrow> effect list \<Rightarrow> bool" where
  "session_open strict b opened [] = opened"
| "session_open strict b opened (Dispatch (Start u h) target ok # effs) =
     session_open strict b (if u = b then opened \<or> ok else opened) effs"
| "session_open strict b opened (Dispatch (End u) target ok # effs) =
     session_open strict b (if u = b \<and> (ok \<or> \<not> strict) then False else opened) effs"
| "session_open strict b opened (e # effs) = session_open strict b opened effs"

fun starts_once :: "bool \<Rightarrow> username \<Rightarrow> bool \<Rightarrow> effect list \<Rightarrow> bool" where
  "starts_once strict b opened [] = True"
| "starts_once strict b opened (Dispatch (Start u h) target ok # effs) =
     ((u \<noteq> b \<or> \<not> opened) \<and> starts_once strict b (if u = b then opened \<or> ok else opened) effs)"
| "starts_once strict b opened (Dispatch (End u) target ok # effs) =
     starts_once strict b (if u = b \<and> (ok \<or> \<not> strict) then False else opened) effs"
| "starts_once strict b opened (e # effs) = starts_once strict b opened effs"

text \<open>Every user with an entry in \<^verbatim>\<open>current_live_users\<close> is marked live in \<^verbatim>\<open>last_status\<close>.\<close>

definition live_marked :: "engine \<Rightarrow> bool" where
  "live_marked s = list_all (\<lambda>u. was_live_of (last_status s) u) (map fst (current_live_users s))"

definition is_dispatch :: "effect \<Rightarrow> bool" where
  "is_dispatch e = (case e of Dispatch n target ok \<Rightarrow> True | _ \<Rightarrow> False)"

text \<open>The phases of \<^verbatim>\<open>check_users\<close>: the URL fallback, the scan of the watch list, the election and the choice of the users to notify.\<close>

definition poll_url :: "engine \<Rightarrow> engine" where
  "poll_url s = (if \<not> truthy_str (svc_webhook_url s)
                 then s\<lparr>svc_webhook_url := Some (env_get (env_webhook_url s))\<rparr> else s)"

definition poll_scan :: "engine \<Rightarrow> string list \<Rightarrow> real \<Rightarrow> stamp \<Rightarrow> poll_acc" where
  "poll_scan s users now t =
     foldl (check_one now t)
       \<lparr>eng = poll_url s, currently_live = [], new_live_users = [], ended_live_users = [], effects = []\<rparr> users"

definition poll_elected :: "poll_acc \<Rightarrow> engine" where
  "poll_elected acc = (eng acc)\<lparr>host_priority := elect_host (currently_live acc)\<rparr>"

definition poll_to_notify :: "poll_acc \<Rightarrow> (username \<times> stamp) list" where
  "poll_to_notify acc =
     (if length (currently_live acc) > 1
      then filter (\<lambda>user_data. Some (fst user_data) = elect_host (currently_live acc)) (new_live_users acc)
      else new_live_users acc)"

subsection \<open>Concrete histories\<close>

text \<open>
  A service started with a main webhook URL and no gift URL, in an empty environment, and the
  clock strings and request outcomes used below.
\<close>

definition started :: engine where
  "started = start (init None None) (Some ''https://discord.test/hook'') None"

definition all_ok :: "nat \<Rightarrow> http_outcome" where
  "all_ok k = HttpOk"

text \<open>
  Alice is polled, connects and is announced; ten seconds later the connection drops.
\<close>

definition blip_history :: "event list" where
  "blip_history =
     [Poll [''alice''] 990 ''2024-05-01T10:16:30'' all_ok,
      Connect ''alice'' 1000 ''2024-05-01T10:16:40'' None HttpOk,
      Disconnect ''alice'' 1010 1016 ''2024-05-01T10:16:56'' (ProbeStatus 302) HttpOk]"

text \<open>Alice is announced; 100 seconds later her stream ends and Discord refuses the end post.\<close>

definition announced_history :: "event list" where
  "announced_history =
     [Poll [''alice''] 990 ''2024-05-01T10:16:30'' all_ok,
      Connect ''alice'' 1000 ''2024-05-01T10:16:40'' None HttpOk]"

definition failed_end_history :: "event list" where
  "failed_end_history =
     announced_history @
     [Disconnect ''alice'' 1100 1106 ''2024-05-01T10:18:26'' (ProbeStatus 302) HttpError]"

text \<open>Alice connects and Discord refuses the start post.\<close>

definition failed_start_history :: "event list" where
  "failed_start_history =
     [Poll [''alice'', ''bob''] 990 ''2024-05-01T10:16:30'' all_ok,
      Connect ''alice'' 1000 ''2024-05-01T10:16:40'' None HttpError]"

text \<open>Alice's stream ends with a delivered end notification at 1106; she is live again at 1110.\<close>

definition ended_history :: "event list" where
  "ended_history =
     announced_history @
     [Disconnect ''alice'' 1100 1106 ''2024-05-01T10:18:26'' (ProbeStatus 302) HttpOk]"

definition back_live_history :: "event list" where
  "back_live_history =
     ended_history @ [Connect ''alice'' 1110 ''2024-05-01T10:18:30'' None HttpOk]"

text \<open>
  Alice's start post is refused and her connection drops before any notification went out;
  then Bob connects.
\<close>

definition lone_bob_history :: "event list" where
  "lone_bob_history =
     failed_start_history @
     [Disconnect ''alice'' 1050 1056 ''2024-05-01T10:17:36'' (ProbeStatus 302) HttpOk,
      Connect ''bob'' 1060 ''2024-05-01T10:17:40'' None HttpOk]"

text \<open>
  After the refused start post: Alice's connection drops, a poll cycle finds her disconnected
  and never notified and resets her live mark, and she connects again.
\<close>

definition retry_history :: "event list" where
  "retry_history =
     [Disconnect ''alice'' 1050 1056 ''2024-05-01T10:17:36'' (ProbeStatus 302) HttpOk,
      Poll [''alice'', ''bob''] 1080 ''2024-05-01T10:18:00'' all_ok,
      Connect ''alice'' 1090 ''2024-05-01T10:18:10'' None HttpOk]"

text \<open>
  A service that was never started (no event loop) but holds two live entries that no handler
  has marked in \<^verbatim>\<open>last_status\<close>; the webhook URL comes from the environment.
\<close>

definition unmarked_live :: engine where
  "unmarked_live =
     (init (Some ''https://discord.test/hook'') None)
       \<lparr>current_live_users :=
          [(''bob'', \<lparr>connected_at = ''2024-05-01T10:16:45'', room_id = None\<rparr>),
           (''alice'', \<lparr>connected_at = ''2024-05-01T10:16:40'', room_id = None\<rparr>)]\<rparr>"

text \<open>A gift event whose gift object carries none of the probed attributes and that has no user.\<close>

definition bare_gift :: gift_event where
  "bare_gift = \<lparr>ev_attrs = [], ev_gift = Some (Some [(''diamond_count'', PInt 5)]), ev_user = None\<rparr>"

text \<open>
  A gift event without any name attribute whose repeat count is a string, and one whose gift
  object carries an id and no name.
\<close>

definition string_count_gift :: gift_event where
  "string_count_gift =
     \<lparr>ev_attrs = [], ev_gift = Some (Some [(''repeat_count'', PStr ''5'')]), ev_user = None\<rparr>"

definition id_only_gift :: gift_event where
  "id_only_gift =
     \<lparr>ev_attrs = [], ev_gift = Some (Some [(''giftId'', PInt 5655)]), ev_user = None\<rparr>"

section \<open>Auxiliary facts\<close>

subsection \<open>Shapes of the dispatcher calls and of the poll cycle\<close>

lemma send_go_live_shape:
  "fst (send_go_live_notification w user h http) = Dispatch (Start user h) (fst (send w http)) (snd (send w http))
   \<and> snd (send_go_live_notification w user h http) = snd (send w http)"
  by (simp add: send_go_live_notification_def split_beta)

lemma send_end_live_shape:
  "fst (send_end_live_notification w user http) = Dispatch (End user) (fst (send w http)) (snd (send w http))
   \<and> snd (send_end_live_notification w user http) = snd (send w http)"
  by (simp add: send_end_live_notification_def split_beta)

lemma connect_to_live_stream_effects:
  "set (snd (connect_to_live_stream s user)) \<subseteq> {AdapterConnect user}"
  by (simp add: connect_to_live_stream_def)

lemma refresh_connection_effects:
  "set (snd (refresh_connection s user live now)) \<subseteq> range AdapterConnect \<union> range AdapterDisconnect"
  by (auto simp: refresh_connection_def connect_to_live_stream_def Let_def)

lemma refresh_connection_frame:
  "last_status (fst (refresh_connection s user live now)) = last_status s"
  "current_live_users (fst (refresh_connection s user live now)) = current_live_users s"
  "notified_users (fst (refresh_connection s user live now)) = notified_users s"
  by (simp_all add: refresh_connection_def connect_to_live_stream_def drop_client_def Let_def)

lemma check_one_effects:
  "set (effects (check_one now t acc raw)) \<subseteq> set (effects acc) \<union> range AdapterConnect \<union> range AdapterDisconnect"
proof (cases "normalize_username raw")
  case None
  then show ?thesis by (auto simp: check_one_def)
next
  case (Some user)
  have "effects (check_one now t acc raw)
        = effects acc @ snd (refresh_connection (eng acc) user (map_of (current_live_users (eng acc)) user \<noteq> None) now)"
    unfolding check_one_def Some by (simp add: Let_def split_beta)
  then show ?thesis
    using refresh_connection_effects [of "eng acc" user "map_of (current_live_users (eng acc)) user \<noteq> None" now]
    by auto
qed

lemma foldl_check_one_effects:
  "set (effects (foldl (check_one now t) acc users)) \<subseteq> set (effects acc) \<union> range AdapterConnect \<union> range AdapterDisconnect"
proof (induction users arbitrary: acc)
  case Nil
  then show ?case by auto
next
  case (Cons raw users)
  show ?case
    using Cons.IH [of "check_one now t acc raw"] check_one_effects [of now t acc raw]
    by auto
qed

lemma notify_new_live_Cons:
  "notify_new_live s n http k (ud # rest) =
     (if fst ud \<in> notified_users s \<or> fst ud \<in> live_clients s then notify_new_live s n http k rest
      else (fst (notify_new_live
                  (if snd (send (live_webhook s) (http k))
                   then s\<lparr>notified_users := insert (fst ud) (notified_users s)\<rparr> else s)
                  n http (Suc k) rest),
            Dispatch (Start (fst ud) (host_priority s = Some (fst ud) \<and> n > 1))
              (fst (send (live_webhook s) (http k))) (snd (send (live_webhook s) (http k)))
            # snd (notify_new_live
                  (if snd (send (live_webhook s) (http k))
                   then s\<lparr>notified_users := insert (fst ud) (notified_users s)\<rparr> else s)
                  n http (Suc k) rest)))"
  by (simp add: Let_def split_beta send_go_live_shape)

lemma notify_new_live_effects:
  "e \<in> set (snd (notify_new_live s n http k us)) \<Longrightarrow> \<exists>u h target ok. e = Dispatch (Start u h) target ok"
proof (induction us arbitrary: s k)
  case Nil
  then show ?case by simp
next
  case (Cons ud rest)
  show ?case
  proof (cases "fst ud \<in> notified_users s \<or> fst ud \<in> live_clients s")
    case True
    with Cons.prems have "e \<in> set (snd (notify_new_live s n http k rest))"
      by (simp only: notify_new_live_Cons if_True)
    then show ?thesis by (rule Cons.IH)
  next
    case False
    with Cons.prems show ?thesis
      by (auto simp only: notify_new_live_Cons if_False snd_conv set_simps dest: Cons.IH)
  qed
qed

lemma check_users_effects:
  "e \<in> set (snd (check_users s users now t http)) \<Longrightarrow>
     (\<exists>u h target ok. e = Dispatch (Start u h) target ok) \<or> e \<in> range AdapterConnect \<or> e \<in> range AdapterDisconnect"
proof -
  assume a: "e \<in> set (snd (check_users s users now t http))"
  show ?thesis
  proof (cases "snd (check_users s users now t http) = []")
    case True
    with a show ?thesis by simp
  next
    case False
    then obtain acc s1 us where
      e: "snd (check_users s users now t http)
          = effects (foldl (check_one now t) acc users) @ snd (notify_new_live s1 (length (currently_live (foldl (check_one now t) acc users))) http 0 us)"
      and acc: "effects acc = []"
      unfolding check_users_def
      by (auto simp: Let_def split_beta split: if_splits) 
    from a e consider
      "e \<in> set (effects (foldl (check_one now t) acc users))"
      | "e \<in> set (snd (notify_new_live s1 (length (currently_live (foldl (check_one now t) acc users))) http 0 us))"
      by auto
    then show ?thesis
    proof cases
      case 1
      with foldl_check_one_effects [of now t acc users] acc show ?thesis by auto
    next
      case 2
      from notify_new_live_effects [OF 2] show ?thesis by auto
    qed
  qed
qed

lemma on_connect_effects:
  "e \<in> set (snd (on_connect s user now t room http)) \<Longrightarrow> \<exists>h target ok. e = Dispatch (Start user h) target ok"
  by (auto simp: on_connect_def Let_def split_beta send_go_live_shape split: if_splits)

lemma on_gift_effects:
  "on_gift s user ev http = Inr effs \<Longrightarrow> e \<in> set effs \<Longrightarrow> \<exists>a b c target ok. e = Dispatch (Gift user a b c) target ok"
  by (auto simp: on_gift_def on_gift_body_def send_gift_notification_def Let_def split_beta split: sum.splits if_splits)

lemma check_users_skip:
  assumes "\<not> truthy_str (svc_webhook_url (poll_url s)) \<or> users = []"
  shows "check_users s users now t http = (poll_url s, [])"
proof (cases "truthy_str (svc_webhook_url (poll_url s))")
  case False
  show ?thesis
    unfolding check_users_def Let_def poll_url_def [symmetric]
    by (simp only: False if_True simp_thms)
next
  case True
  with assms have u: "users = []" by blast
  show ?thesis
    unfolding check_users_def Let_def poll_url_def [symmetric]
    by (simp only: True u if_True if_False simp_thms)
qed

lemma check_users_run:
  assumes "truthy_str (svc_webhook_url (poll_url s))" and "users \<noteq> []"
  shows "check_users s users now t http =
     ((fst (notify_new_live (poll_elected (poll_scan s users now t))
              (length (currently_live (poll_scan s users now t))) http 0
              (poll_to_notify (poll_scan s users now t))))
        \<lparr>current_live_users := currently_live (poll_scan s users now t)\<rparr>,
      effects (poll_scan s users now t)
      @ snd (notify_new_live (poll_elected (poll_scan s users now t))
              (length (currently_live (poll_scan s users now t))) http 0
              (poll_to_notify (poll_scan s users now t))))"
proof -
  have h: "host_priority (poll_elected acc) = elect_host (currently_live acc)" for acc
    by (simp add: poll_elected_def)
  show ?thesis
    using assms
    unfolding check_users_def Let_def poll_url_def [symmetric] poll_scan_def [symmetric]
      poll_elected_def [symmetric] h poll_to_notify_def [symmetric]
    by (simp only: if_False simp_thms split_beta)
qed

subsection \<open>Host election\<close>

lemma elect_step_less:
  "connected_at (snd x) < e0 \<Longrightarrow> elect_step (Some h0, Some e0) x = (Some (fst x), Some (connected_at (snd x)))"
  by (simp only: elect_step_def snd_conv option.case if_True)

lemma elect_step_not_less:
  "\<not> connected_at (snd x) < e0 \<Longrightarrow> elect_step (Some h0, Some e0) x = (Some h0, Some e0)"
  by (simp only: elect_step_def snd_conv option.case if_False)

lemma elect_step_first:
  "elect_step (None, None) x = (Some (fst x), Some (connected_at (snd x)))"
  by (simp only: elect_step_def snd_conv option.case)

lemma foldl_elect_step:
  "\<exists>h e. foldl elect_step (Some h0, Some e0) cl = (Some h, Some e)
      \<and> e \<le> e0 \<and> (\<forall>y\<in>set cl. e \<le> connected_at (snd y))
      \<and> ((h = h0 \<and> e = e0) \<or> (\<exists>x\<in>set cl. fst x = h \<and> connected_at (snd x) = e))"
proof (induction cl arbitrary: h0 e0)
  case Nil
  show ?case by (rule exI [of _ h0], rule exI [of _ e0]) simp
next
  case (Cons x xs)
  show ?case
  proof (cases "connected_at (snd x) < e0")
    case True
    from Cons.IH [of "fst x" "connected_at (snd x)"]
    obtain h e where r: "foldl elect_step (Some (fst x), Some (connected_at (snd x))) xs = (Some h, Some e)"
      and le: "e \<le> connected_at (snd x)" and all: "\<forall>y\<in>set xs. e \<le> connected_at (snd y)"
      and src: "(h = fst x \<and> e = connected_at (snd x)) \<or> (\<exists>z\<in>set xs. fst z = h \<and> connected_at (snd z) = e)"
      by blast
    have f: "foldl elect_step (Some h0, Some e0) (x # xs) = (Some h, Some e)"
      by (simp only: foldl_Cons elect_step_less [OF True] r)
    have le0: "e \<le> e0" using le True by (rule order.trans [OF _ less_imp_le])
    have all': "\<forall>y\<in>set (x # xs). e \<le> connected_at (snd y)"
      using le all by (simp only: set_simps ball_simps; blast)
    have src': "\<exists>z\<in>set (x # xs). fst z = h \<and> connected_at (snd z) = e"
      using src by (simp only: set_simps bex_simps; blast)
    from f le0 all' src' show ?thesis by blast
  next
    case False
    from Cons.IH [of h0 e0]
    obtain h e where r: "foldl elect_step (Some h0, Some e0) xs = (Some h, Some e)"
      and le: "e \<le> e0" and all: "\<forall>y\<in>set xs. e \<le> connected_at (snd y)"
      and src: "(h = h0 \<and> e = e0) \<or> (\<exists>z\<in>set xs. fst z = h \<and> connected_at (snd z) = e)"
      by blast
    have f: "foldl elect_step (Some h0, Some e0) (x # xs) = (Some h, Some e)"
      by (simp only: foldl_Cons elect_step_not_less [OF False] r)
    from False have "e0 \<le> connected_at (snd x)" by (rule leI)
    with le have "e \<le> connected_at (snd x)" by (rule order.trans)
    with all have all': "\<forall>y\<in>set (x # xs). e \<le> connected_at (snd y)"
      by (simp only: set_simps ball_simps; blast)
    have src': "(h = h0 \<and> e = e0) \<or> (\<exists>z\<in>set (x # xs). fst z = h \<and> connected_at (snd z) = e)"
      using src by (simp only: set_simps bex_simps; blast)
    from f le all' src' show ?thesis by blast
  qed
qed

lemma elect_host_earliest:
  assumes "cl \<noteq> []"
  shows "\<exists>x\<in>set cl. elect_host cl = Some (fst x) \<and> (\<forall>y\<in>set cl. connected_at (snd x) \<le> connected_at (snd y))"
proof -
  from assms obtain x xs where cl: "cl = x # xs" by (cases cl) auto
  from foldl_elect_step [of "fst x" "connected_at (snd x)" xs]
  obtain h e where r: "foldl elect_step (Some (fst x), Some (connected_at (snd x))) xs = (Some h, Some e)"
    and le: "e \<le> connected_at (snd x)" and all: "\<forall>y\<in>set xs. e \<le> connected_at (snd y)"
    and src: "(h = fst x \<and> e = connected_at (snd x)) \<or> (\<exists>z\<in>set xs. fst z = h \<and> connected_at (snd z) = e)"
    by blast
  have eh: "elect_host cl = Some h"
    by (simp only: elect_host_def cl foldl_Cons elect_step_first r fst_conv)
  have all': "\<forall>y\<in>set cl. e \<le> connected_at (snd y)"
    unfolding cl using le all by (simp only: set_simps ball_simps; blast)
  have "\<exists>z\<in>set cl. fst z = h \<and> connected_at (snd z) = e"
    unfolding cl using src by (simp only: set_simps bex_simps; blast)
  then obtain z where "z \<in> set cl" "fst z = h" "connected_at (snd z) = e" by blast
  with eh all' show ?thesis by blast
qed

lemma elect_host_single: "elect_host [x] = Some (fst x)"
  by (simp only: elect_host_def foldl_Cons foldl_Nil elect_step_first fst_conv)

lemma notify_new_live_frame:
  "host_priority (fst (notify_new_live s n http k us)) = host_priority s
   \<and> last_status (fst (notify_new_live s n http k us)) = last_status s
   \<and> current_live_users (fst (notify_new_live s n http k us)) = current_live_users s"
proof (induction us arbitrary: s k)
  case Nil
  then show ?case by simp
next
  case (Cons ud rest)
  show ?case
    unfolding notify_new_live_Cons
    by (simp add: Cons.IH)
qed

lemma notify_new_live_flag:
  "Dispatch (Start u h) target ok \<in> set (snd (notify_new_live s n http k us))
   \<Longrightarrow> h = (host_priority s = Some u \<and> 1 < n)"
proof (induction us arbitrary: s k)
  case Nil
  then show ?case by simp
next
  case (Cons ud rest)
  show ?case
  proof (cases "fst ud \<in> notified_users s \<or> fst ud \<in> live_clients s")
    case True
    with Cons.prems have "Dispatch (Start u h) target ok \<in> set (snd (notify_new_live s n http k rest))"
      by (simp only: notify_new_live_Cons if_True)
    then show ?thesis by (rule Cons.IH)
  next
    case False
    let ?s1 = "if snd (send (live_webhook s) (http k))
               then s\<lparr>notified_users := insert (fst ud) (notified_users s)\<rparr> else s"
    from False Cons.prems consider
      "u = fst ud \<and> h = (host_priority s = Some (fst ud) \<and> 1 < n)"
      | "Dispatch (Start u h) target ok \<in> set (snd (notify_new_live ?s1 n http (Suc k) rest))"
      by (auto simp only: notify_new_live_Cons if_False snd_conv set_simps)
    then show ?thesis
    proof cases
      case 1
      then show ?thesis by simp
    next
      case 2
      from Cons.IH [OF 2] show ?thesis by (simp split: if_splits)
    qed
  qed
qed


subsection \<open>The connect and the disconnect handler\<close>

lemma was_live_of_update:
  "was_live_of (AList.update k v ls) u = (if u = k then is_live v else was_live_of ls u)"
  by (simp add: was_live_of_def update_conv')

lemma end_gates_dispatch:
  assumes "end_gates_pass s user now pr"
  shows "on_disconnect s user now later t pr http =
     (drop_client user (forget_connection user
        ((if dispatch_succeeds s http
          then s\<lparr>current_live_users := AList.delete user (current_live_users s),
                  end_notification_sent := insert user (end_notification_sent s),
                  end_notification_cooldown := (end_notification_cooldown s)(user \<mapsto> later)\<rparr>
          else s\<lparr>current_live_users := AList.delete user (current_live_users s)\<rparr>)
         \<lparr>notified_users := notified_users s - {user},
           last_status := AList.update user (not_live_status t) (last_status s)\<rparr>)),
      [Dispatch (End user) (fst (send (live_webhook s) http)) (dispatch_succeeds s http)])"
  using assms
  unfolding end_gates_pass_def cooldown_active_def connection_too_short_def probe_says_ended_def
    on_disconnect_def dispatch_succeeds_def
  by (auto simp: Let_def split_beta send_end_live_shape live_webhook_def split: option.splits probe.splits if_splits)

lemma not_notified_disconnect:
  "user \<notin> notified_users s \<Longrightarrow> snd (on_disconnect s user now later t pr http) = []"
  by (simp add: on_disconnect_def)

lemma connect_start_shape:
  assumes "user \<notin> notified_users s" and "\<not> was_live_of (last_status s) user"
  shows "on_connect s user now t room http =
     ((if dispatch_succeeds s http
       then s\<lparr>notified_users := insert user (notified_users s),
               end_notification_sent := end_notification_sent s - {user},
               end_notification_cooldown := (end_notification_cooldown s)(user := None)\<rparr>
       else s)
      \<lparr>successfully_connected := insert user (successfully_connected s),
        connection_start_times := (connection_start_times s)(user \<mapsto> now),
        current_live_users := AList.update user \<lparr>connected_at = t, room_id = room\<rparr> (current_live_users s),
        connection_attempts := (connection_attempts s)(user := None),
        last_status := AList.update user (live_status t) (last_status s)\<rparr>,
      [Dispatch (Start user (list_all (\<lambda>st. \<not> is_live st) (map snd (last_status s))))
         (fst (send (live_webhook s) http)) (dispatch_succeeds s http)])"
proof -
  have "(length (filter (\<lambda>(u, st). is_live st) (last_status s)) = 0)
        = list_all (\<lambda>st. \<not> is_live st) (map snd (last_status s))"
    by (induction "last_status s") (auto simp: list_all_iff filter_empty_conv)
  with assms show ?thesis
    unfolding on_connect_def dispatch_succeeds_def
    by (simp add: Let_def split_beta send_go_live_shape live_webhook_def)
qed

lemma connect_silent:
  assumes "user \<in> notified_users s \<or> was_live_of (last_status s) user"
  shows "snd (on_connect s user now t room http) = []"
  using assms by (auto simp: on_connect_def Let_def)

subsection \<open>Host flags of the poll cycle\<close>

lemma poll_scan_effects:
  "set (effects (poll_scan s users now t)) \<subseteq> range AdapterConnect \<union> range AdapterDisconnect"
  unfolding poll_scan_def
  using foldl_check_one_effects [of now t "\<lparr>eng = poll_url s, currently_live = [], new_live_users = [], ended_live_users = [], effects = []\<rparr>" users]
  by simp

lemma check_users_flag:
  assumes "Dispatch (Start u h) target ok \<in> set (snd (check_users s users now t http))"
  shows "h = (host_priority (fst (check_users s users now t http)) = Some u
              \<and> 1 < length (current_live_users (fst (check_users s users now t http))))"
proof (cases "truthy_str (svc_webhook_url (poll_url s)) \<and> users \<noteq> []")
  case False
  then have "check_users s users now t http = (poll_url s, [])"
    using check_users_skip [of s users now t http] by blast
  with assms show ?thesis by simp
next
  case True
  let ?acc = "poll_scan s users now t"
  let ?r = "notify_new_live (poll_elected ?acc) (length (currently_live ?acc)) http 0 (poll_to_notify ?acc)"
  have cu: "check_users s users now t http
      = ((fst ?r)\<lparr>current_live_users := currently_live ?acc\<rparr>, effects ?acc @ snd ?r)"
    using True check_users_run [of s users now t http] by blast
  from assms cu poll_scan_effects [of s users now t]
  have "Dispatch (Start u h) target ok \<in> set (snd ?r)" by auto
  from notify_new_live_flag [OF this]
  have "h = (host_priority (poll_elected ?acc) = Some u \<and> 1 < length (currently_live ?acc))" .
  then show ?thesis
    unfolding cu using notify_new_live_frame [of "poll_elected ?acc" "length (currently_live ?acc)" http 0 "poll_to_notify ?acc"]
    by simp
qed

lemma check_users_host:
  assumes "truthy_str (svc_webhook_url s) \<or> truthy_str (env_webhook_url s)" and "users \<noteq> []"
  shows "host_priority (fst (check_users s users now t http))
         = elect_host (current_live_users (fst (check_users s users now t http)))"
proof -
  from assms(1) have "truthy_str (svc_webhook_url (poll_url s))"
    by (auto simp: poll_url_def truthy_str_def env_get_def split: option.splits)
  with assms(2) show ?thesis
    using notify_new_live_frame [of "poll_elected (poll_scan s users now t)" "length (currently_live (poll_scan s users now t))" http 0 "poll_to_notify (poll_scan s users now t)"]
    by (simp add: check_users_run poll_elected_def)
qed

subsection \<open>Placeholders of the gift handler\<close>

lemma py_or_falsy: "\<not> truthy a \<Longrightarrow> py_or a b = b"
  by (simp add: py_or_def)

lemma on_gift_returns: "\<exists>effs. on_gift s user event http = Inr effs"
  by (simp add: on_gift_def split: sum.splits)

lemma gift_name_placeholder:
  "list_all (\<lambda>k. \<not> truthy (getattr g k)) name_attrs \<Longrightarrow> gift_name_of g = PStr ''Gift''"
  by (simp add: name_attrs_def gift_name_of_def py_or_falsy Let_def isdigit_def)

lemma repeat_count_placeholder:
  "list_all (\<lambda>k. \<not> truthy (getattr g k)) count_attrs \<Longrightarrow> repeat_count_of g = PInt 1"
  by (simp add: count_attrs_def repeat_count_of_def py_or_falsy)

lemma gifter_placeholder:
  "list_all (\<lambda>k. \<not> truthy (getattr g k)) gifter_attrs \<Longrightarrow> gifter_username_of g = PStr []"
  by (simp add: gifter_attrs_def gifter_username_of_def py_or_falsy)

lemma gift_name_first_truthy:
  "gift_name_of g = first_truthy (map (getattr g) name_attrs) (PStr ''Gift'')"
  by (simp add: gift_name_of_def name_attrs_def py_or_def Let_def isdigit_def)

lemma repeat_count_first_truthy:
  "repeat_count_of g = first_truthy (map (getattr g) count_attrs) (PInt 1)"
  by (simp add: repeat_count_of_def count_attrs_def py_or_def)

lemma gifter_first_truthy:
  "gifter_username_of u = first_truthy (map (getattr u) gifter_attrs) (PStr [])"
  by (simp add: gifter_username_of_def gifter_attrs_def py_or_def)

lemma first_truthy_lacking:
  "list_all (\<lambda>v. \<not> truthy v) vs \<Longrightarrow> first_truthy vs d = d"
  by (induction vs) auto

lemma url_or_env_twice: "url_or_env (Some (url_or_env u v)) v = url_or_env u v"
  by (auto simp: url_or_env_def truthy_str_def env_get_def split: option.splits)

lemma on_gift_exact:
  "on_gift s user event http =
     (case fst (snd (extract_gift event)) of
        PInt n \<Rightarrow> Inr [Dispatch (Gift user (fst (extract_gift event)) (PInt n) (snd (snd (extract_gift event))))
                       (gift_target s) (gift_target s \<noteq> None \<and> http = HttpOk)]
      | PStr c \<Rightarrow> Inr []
      | PNone \<Rightarrow> Inr [])"
  by (auto simp: on_gift_def on_gift_body_def send_gift_notification_def format_thousands_def
      DiscordWebhook_def url_or_env_twice send_def gift_target_def Let_def split_beta
      split: pyval.splits)

subsection \<open>Live marks and notification histories\<close>

lemma live_marked_iff:
  "live_marked s = (\<forall>u. map_of (current_live_users s) u \<noteq> None \<longrightarrow> was_live_of (last_status s) u)"
  by (auto simp: live_marked_def list_all_iff map_of_eq_None_iff)

lemma on_connect_frame:
  "current_live_users (fst (on_connect s user now t room http))
     = AList.update user \<lparr>connected_at = t, room_id = room\<rparr> (current_live_users s)"
  "last_status (fst (on_connect s user now t room http))
     = AList.update user (live_status t) (last_status s)"
  by (simp_all add: on_connect_def Let_def split_beta)

lemma on_connect_silent_notified:
  assumes "user \<in> notified_users s \<or> was_live_of (last_status s) user"
  shows "notified_users (fst (on_connect s user now t room http)) = notified_users s"
  using assms by (auto simp: on_connect_def Let_def)

lemma on_connect_live_marked:
  assumes "live_marked s"
  shows "live_marked (fst (on_connect s user now t room http))"
  using assms
  by (simp add: live_marked_iff on_connect_frame update_conv' was_live_of_update live_status_def)

lemma end_gates_fail:
  assumes "\<not> end_gates_pass s user now pr"
  shows "snd (on_disconnect s user now later t pr http) = []
     \<and> notified_users (fst (on_disconnect s user now later t pr http)) = notified_users s
     \<and> last_status (fst (on_disconnect s user now later t pr http)) = last_status s"
  using assms
  unfolding end_gates_pass_def cooldown_active_def connection_too_short_def probe_says_ended_def
    on_disconnect_def
  by (auto simp: Let_def forget_connection_def drop_client_def split: option.splits probe.splits if_splits)

lemma on_disconnect_frame:
  "current_live_users (fst (on_disconnect s user now later t pr http))
     = AList.delete user (current_live_users s)"
proof (cases "end_gates_pass s user now pr")
  case True
  then show ?thesis
    by (simp add: end_gates_dispatch drop_client_def forget_connection_def)
next
  case False
  then show ?thesis
    unfolding end_gates_pass_def cooldown_active_def connection_too_short_def probe_says_ended_def
      on_disconnect_def
    by (auto simp: Let_def forget_connection_def drop_client_def split: option.splits probe.splits if_splits)
qed

lemma on_disconnect_live_marked:
  assumes "live_marked s"
  shows "live_marked (fst (on_disconnect s user now later t pr http))"
proof (cases "end_gates_pass s user now pr")
  case True
  have "last_status (fst (on_disconnect s user now later t pr http))
        = AList.update user (not_live_status t) (last_status s)"
    by (simp add: end_gates_dispatch [OF True] drop_client_def forget_connection_def)
  with assms show ?thesis
    by (simp add: live_marked_iff on_disconnect_frame delete_conv' was_live_of_update)
next
  case False
  with assms end_gates_fail [OF False] show ?thesis
    by (simp add: live_marked_iff on_disconnect_frame delete_conv')
qed

lemma check_one_marked:
  assumes J: "\<forall>u. map_of (current_live_users (eng acc)) u \<noteq> None \<longrightarrow> was_live_of (last_status (eng acc)) u"
    and N: "new_live_users acc = []"
    and C: "\<forall>u. map_of (currently_live acc) u \<noteq> None \<longrightarrow> map_of (current_live_users (eng acc)) u \<noteq> None"
  shows "(\<forall>u. map_of (current_live_users (eng (check_one now t acc raw))) u \<noteq> None
              \<longrightarrow> was_live_of (last_status (eng (check_one now t acc raw))) u)
     \<and> new_live_users (check_one now t acc raw) = []
     \<and> (\<forall>u. map_of (currently_live (check_one now t acc raw)) u \<noteq> None
              \<longrightarrow> map_of (current_live_users (eng (check_one now t acc raw))) u \<noteq> None)
     \<and> notified_users (eng (check_one now t acc raw)) = notified_users (eng acc)
     \<and> current_live_users (eng (check_one now t acc raw)) = current_live_users (eng acc)"
proof (cases "normalize_username raw")
  case None
  with assms show ?thesis by (simp add: check_one_def)
next
  case (Some user)
  show ?thesis
  proof (cases "map_of (current_live_users (eng acc)) user \<noteq> None")
    case True
    with J have w: "was_live_of (last_status (eng acc)) user" by blast
    from True w J N C show ?thesis
      unfolding check_one_def Some
      by (simp add: Let_def split_beta refresh_connection_frame was_live_of_update update_conv')
  next
    case False
    from False J N C show ?thesis
      unfolding check_one_def Some
      by (simp add: Let_def split_beta refresh_connection_frame was_live_of_update
          forget_connection_def)
  qed
qed

lemma foldl_check_one_marked:
  assumes "\<forall>u. map_of (current_live_users (eng acc)) u \<noteq> None \<longrightarrow> was_live_of (last_status (eng acc)) u"
    and "new_live_users acc = []"
    and "\<forall>u. map_of (currently_live acc) u \<noteq> None \<longrightarrow> map_of (current_live_users (eng acc)) u \<noteq> None"
  shows "(\<forall>u. map_of (current_live_users (eng (foldl (check_one now t) acc users))) u \<noteq> None
              \<longrightarrow> was_live_of (last_status (eng (foldl (check_one now t) acc users))) u)
     \<and> new_live_users (foldl (check_one now t) acc users) = []
     \<and> (\<forall>u. map_of (currently_live (foldl (check_one now t) acc users)) u \<noteq> None
              \<longrightarrow> map_of (current_live_users (eng (foldl (check_one now t) acc users))) u \<noteq> None)
     \<and> notified_users (eng (foldl (check_one now t) acc users)) = notified_users (eng acc)
     \<and> current_live_users (eng (foldl (check_one now t) acc users)) = current_live_users (eng acc)"
  using assms
proof (induction users arbitrary: acc)
  case Nil
  then show ?case by simp
next
  case (Cons raw users)
  note one = check_one_marked [OF Cons.prems, of now t raw]
  from one have a: "\<forall>u. map_of (current_live_users (eng (check_one now t acc raw))) u \<noteq> None
              \<longrightarrow> was_live_of (last_status (eng (check_one now t acc raw))) u"
    and b: "new_live_users (check_one now t acc raw) = []"
    and c: "\<forall>u. map_of (currently_live (check_one now t acc raw)) u \<noteq> None
              \<longrightarrow> map_of (current_live_users (eng (check_one now t acc raw))) u \<noteq> None"
    and d: "notified_users (eng (check_one now t acc raw)) = notified_users (eng acc)"
    and e: "current_live_users (eng (check_one now t acc raw)) = current_live_users (eng acc)"
    by blast+
  have f: "foldl (check_one now t) acc (raw # users)
           = foldl (check_one now t) (check_one now t acc raw) users"
    by simp
  show ?case
    unfolding f using Cons.IH [OF a b c, unfolded d e] .
qed

lemma check_users_marked:
  assumes "live_marked s"
  shows "live_marked (fst (check_users s users now t http))
     \<and> notified_users (fst (check_users s users now t http)) = notified_users s
     \<and> (\<forall>e\<in>set (snd (check_users s users now t http)). \<not> is_dispatch e)"
proof (cases "truthy_str (svc_webhook_url (poll_url s)) \<and> users \<noteq> []")
  case False
  then have "check_users s users now t http = (poll_url s, [])"
    using check_users_skip [of s users now t http] by blast
  with assms show ?thesis
    by (simp add: live_marked_iff poll_url_def)
next
  case True
  let ?ini = "\<lparr>eng = poll_url s, currently_live = [], new_live_users = [], ended_live_users = [], effects = []\<rparr>"
  let ?acc = "poll_scan s users now t"
  from assms have j: "\<forall>u. map_of (current_live_users (eng ?ini)) u \<noteq> None \<longrightarrow> was_live_of (last_status (eng ?ini)) u"
    by (simp add: live_marked_iff poll_url_def)
  have n: "new_live_users ?ini = []" by simp
  have c: "\<forall>u. map_of (currently_live ?ini) u \<noteq> None \<longrightarrow> map_of (current_live_users (eng ?ini)) u \<noteq> None"
    by simp
  note f = foldl_check_one_marked [OF j n c, of now t users, folded poll_scan_def]
  from f have m: "\<forall>u. map_of (current_live_users (eng ?acc)) u \<noteq> None \<longrightarrow> was_live_of (last_status (eng ?acc)) u"
    by blast
  from f have nl: "new_live_users ?acc = []"
    by blast
  from f have sub: "\<forall>u. map_of (currently_live ?acc) u \<noteq> None \<longrightarrow> map_of (current_live_users (eng ?acc)) u \<noteq> None"
    by blast
  from f have "notified_users (eng ?acc) = notified_users (eng ?ini)"
    by blast
  then have nu: "notified_users (eng ?acc) = notified_users s"
    by (simp add: poll_url_def)
  have tn: "poll_to_notify ?acc = []"
    by (simp add: poll_to_notify_def nl)
  have cu: "check_users s users now t http
      = ((poll_elected ?acc)\<lparr>current_live_users := currently_live ?acc\<rparr>, effects ?acc)"
    using True by (simp add: check_users_run tn)
  have eff: "\<forall>e\<in>set (effects ?acc). \<not> is_dispatch e"
    using poll_scan_effects [of s users now t] by (auto simp: is_dispatch_def)
  from m sub nu eff show ?thesis
    unfolding cu by (simp add: live_marked_iff poll_elected_def)
qed

lemma starts_once_append:
  "starts_once strict b opened (xs @ ys)
     = (starts_once strict b opened xs \<and> starts_once strict b (session_open strict b opened xs) ys)"
  by (induction strict b opened xs rule: starts_once.induct) auto

lemma no_dispatch_history:
  assumes "\<forall>e\<in>set effs. \<not> is_dispatch e"
  shows "starts_once strict b opened effs \<and> session_open strict b opened effs = opened"
  using assms
  by (induction strict b opened effs rule: starts_once.induct) (auto simp: is_dispatch_def)

lemma gift_step_effects:
  assumes "x \<in> set (snd (step s (GiftReceived user ev http)))"
  shows "\<exists>a b c target ok. x = Dispatch (Gift user a b c) target ok"
proof (cases "on_gift s user ev http")
  case (Inl e)
  with assms show ?thesis by simp
next
  case (Inr effs)
  with assms on_gift_effects [OF Inr, of x] show ?thesis by simp
qed

lemma gift_history:
  assumes "\<forall>x\<in>set effs. \<exists>u a b c target ok. x = Dispatch (Gift u a b c) target ok"
  shows "starts_once strict b opened effs \<and> session_open strict b opened effs = opened"
  using assms
  by (induction effs) auto

lemma on_connect_history:
  assumes "opened \<longrightarrow> b \<in> notified_users s"
  shows "starts_once False b opened (snd (on_connect s user now t room http))
     \<and> (session_open False b opened (snd (on_connect s user now t room http))
          \<longrightarrow> b \<in> notified_users (fst (on_connect s user now t room http)))"
proof (cases "user \<in> notified_users s \<or> was_live_of (last_status s) user")
  case True
  with assms show ?thesis
    by (simp add: connect_silent on_connect_silent_notified)
next
  case False
  then have sh: "user \<notin> notified_users s" "\<not> was_live_of (last_status s) user" by blast+
  from assms sh(1) show ?thesis
    by (auto simp: connect_start_shape [OF sh])
qed

lemma on_disconnect_history:
  assumes "opened \<longrightarrow> b \<in> notified_users s"
  shows "starts_once False b opened (snd (on_disconnect s user now later t pr http))
     \<and> (session_open False b opened (snd (on_disconnect s user now later t pr http))
          \<longrightarrow> b \<in> notified_users (fst (on_disconnect s user now later t pr http)))"
proof (cases "end_gates_pass s user now pr")
  case True
  with assms show ?thesis
    by (auto simp: end_gates_dispatch drop_client_def forget_connection_def)
next
  case False
  with assms end_gates_fail [OF False, of later t http] show ?thesis
    by simp
qed

lemma check_users_history:
  assumes "live_marked s" and "opened \<longrightarrow> b \<in> notified_users s"
  shows "starts_once False b opened (snd (check_users s users now t http))
     \<and> (session_open False b opened (snd (check_users s users now t http))
          \<longrightarrow> b \<in> notified_users (fst (check_users s users now t http)))"
  using check_users_marked [OF assms(1), of users now t http] assms(2)
    no_dispatch_history [of "snd (check_users s users now t http)" False b opened]
  by simp

lemma step_live_marked:
  assumes "live_marked s"
  shows "live_marked (fst (step s e))"
proof (cases e)
  case (Connect user now t room http)
  with assms show ?thesis by (simp add: on_connect_live_marked)
next
  case (Disconnect user now later t pr http)
  with assms show ?thesis by (simp add: on_disconnect_live_marked)
next
  case (Poll users now t http)
  with assms show ?thesis by (simp add: check_users_marked)
next
  case (GiftReceived user ev http)
  with assms show ?thesis by simp
next
  case (ConnectionFailed user)
  with assms show ?thesis
    by (simp add: live_marked_iff connection_failed_def forget_connection_def drop_client_def)
qed

lemma step_history:
  assumes "live_marked s" and "opened \<longrightarrow> b \<in> notified_users s"
  shows "starts_once False b opened (snd (step s e))
     \<and> (session_open False b opened (snd (step s e)) \<longrightarrow> b \<in> notified_users (fst (step s e)))"
proof (cases e)
  case (Connect user now t room http)
  with on_connect_history [OF assms(2)] show ?thesis by simp
next
  case (Disconnect user now later t pr http)
  with on_disconnect_history [OF assms(2)] show ?thesis by simp
next
  case (Poll users now t http)
  with check_users_history [OF assms] show ?thesis by simp
next
  case (GiftReceived user ev http)
  have "starts_once False b opened (snd (step s (GiftReceived user ev http)))
     \<and> session_open False b opened (snd (step s (GiftReceived user ev http))) = opened"
    using gift_step_effects [of _ s user ev http] by (intro gift_history) blast
  with assms(2) GiftReceived show ?thesis by simp
next
  case (ConnectionFailed user)
  with assms(2) show ?thesis
    by (simp add: connection_failed_def forget_connection_def drop_client_def)
qed

lemma run_history:
  assumes "live_marked s" and "opened \<longrightarrow> b \<in> notified_users s"
  shows "starts_once False b opened (snd (run s evs))"
  using assms
proof (induction evs arbitrary: s opened)
  case Nil
  then show ?case by simp
next
  case (Cons e evs)
  from step_history [OF Cons.prems, of e]
  have h: "starts_once False b opened (snd (step s e))"
    and o: "session_open False b opened (snd (step s e)) \<longrightarrow> b \<in> notified_users (fst (step s e))"
    by blast+
  from Cons.IH [OF step_live_marked [OF Cons.prems(1), of e] o]
  have "starts_once False b (session_open False b opened (snd (step s e))) (snd (run (fst (step s e)) evs))" .
  with h show ?case
    by (simp add: split_beta starts_once_append)
qed

section \<open>The properties of the specification\<close>

text \<open>
  C9. Calling \<^verbatim>\<open>start\<close> while the service is already running changes nothing: the stored main
  and gift webhook URLs keep their values whatever URLs are passed, no scheduler job and no
  event-loop thread is added, and \<^verbatim>\<open>is_running\<close> still answers true.
\<close>

theorem start_while_running:
  assumes "is_running s"
  shows "start s url gift_url = s \<and> is_running (start s url gift_url)"
  using assms by (simp add: start_def is_running_def)

theorem start_while_running_witness:
  "is_running (start (init None None) (Some ''https://a'') (Some ''https://g''))
   \<and> svc_webhook_url (start (start (init None None) (Some ''https://a'') (Some ''https://g''))
        (Some ''https://b'') (Some ''https://h'')) = Some ''https://a''
   \<and> svc_gift_webhook_url (start (start (init None None) (Some ''https://a'') (Some ''https://g''))
        (Some ''https://b'') (Some ''https://h'')) = Some ''https://g''
   \<and> loop_threads (start (start (init None None) (Some ''https://a'') (Some ''https://g''))
        (Some ''https://b'') (Some ''https://h'')) = 1
   \<and> scheduler_jobs (start (start (init None None) (Some ''https://a'') (Some ''https://g''))
        (Some ''https://b'') (Some ''https://h'')) = [''check_users'']"
proof -
  have r: "is_running (start (init None None) (Some ''https://a'') (Some ''https://g''))"
    by (simp add: start_def is_running_def init_def truthy_str_def)
  have e: "start (start (init None None) (Some ''https://a'') (Some ''https://g''))
             (Some ''https://b'') (Some ''https://h'')
           = start (init None None) (Some ''https://a'') (Some ''https://g'')"
    using start_while_running [OF r] by simp
  show ?thesis
    unfolding e using r
    by (simp add: start_def init_def truthy_str_def add_job_def)
qed

text \<open>
  C10. Whenever \<^verbatim>\<open>send_gift_notification\<close> returns (with \<^verbatim>\<open>send\<close>'s answer or by raising on
  the quantity), the webhook object's main \<^verbatim>\<open>webhook_url\<close> is what it was before the call, and
  so is its gift URL; when it returns normally the embed was posted to the gift URL if one is
  configured, and otherwise to the main URL if there is one.
\<close>

theorem send_gift_notification_restores_url:
  "webhook_url (fst (send_gift_notification w user gift_type gift_amount gifter http)) = webhook_url w
   \<and> gift_webhook_url (fst (send_gift_notification w user gift_type gift_amount gifter http)) = gift_webhook_url w
   \<and> (\<forall>n target result.
        snd (send_gift_notification w user gift_type gift_amount gifter http) = Inr (Dispatch n target result, result)
        \<longrightarrow> target = (if gift_webhook_url w \<noteq> [] then Some (gift_webhook_url w)
                      else if webhook_url w \<noteq> [] then Some (webhook_url w) else None))"
  by (auto simp: send_gift_notification_def send_def Let_def split: sum.splits if_splits)

theorem send_gift_notification_restores_url_witness:
  "webhook_url (fst (send_gift_notification \<lparr>webhook_url = ''https://main'', gift_webhook_url = ''https://gift''\<rparr>
       ''alice'' (PStr ''Rose'') (PInt 3) (PStr ''bob'') HttpOk)) = ''https://main''
   \<and> snd (send_gift_notification \<lparr>webhook_url = ''https://main'', gift_webhook_url = ''https://gift''\<rparr>
       ''alice'' (PStr ''Rose'') (PInt 3) (PStr ''bob'') HttpOk)
     = Inr (Dispatch (Gift ''alice'' (PStr ''Rose'') (PInt 3) (PStr ''bob'')) (Some ''https://gift'') True, True)"
proof -
  have "snd (send_gift_notification \<lparr>webhook_url = ''https://main'', gift_webhook_url = ''https://gift''\<rparr>
       ''alice'' (PStr ''Rose'') (PInt 3) (PStr ''bob'') HttpOk)
     = Inr (Dispatch (Gift ''alice'' (PStr ''Rose'') (PInt 3) (PStr ''bob'')) (Some ''https://gift'') True, True)"
    by (simp add: send_gift_notification_def send_def format_thousands_def)
  then show ?thesis
    using send_gift_notification_restores_url
      [of "\<lparr>webhook_url = ''https://main'', gift_webhook_url = ''https://gift''\<rparr>"
          "''alice''" "PStr ''Rose''" "PInt 3" "PStr ''bob''" HttpOk]
    by simp
qed

text \<open>
  C6. A poll cycle never dispatches an end notification, whatever it finds: the effects of
  \<^verbatim>\<open>check_users\<close> are start notifications and adapter commands only. Nor do the connect and the
  gift handler dispatch one, which leaves the disconnect handler as the only source.
\<close>

theorem end_only_from_disconnect:
  "Dispatch (End u) target ok \<notin> set (snd (check_users s users now t http))
   \<and> Dispatch (End u) target ok \<notin> set (snd (on_connect s user now' t' room http'))
   \<and> Dispatch (End u) target ok \<notin> set (snd (step s (GiftReceived user ev http')))"
proof -
  have 1: "Dispatch (End u) target ok \<notin> set (snd (check_users s users now t http))"
    using check_users_effects [of "Dispatch (End u) target ok" s users now t http] by auto
  have 2: "Dispatch (End u) target ok \<notin> set (snd (on_connect s user now' t' room http'))"
    using on_connect_effects [of "Dispatch (End u) target ok" s user now' t' room http'] by auto
  have 3: "Dispatch (End u) target ok \<notin> set (snd (step s (GiftReceived user ev http')))"
  proof (cases "on_gift s user ev http'")
    case (Inl e)
    then show ?thesis by simp
  next
    case (Inr effs)
    then show ?thesis
      using on_gift_effects [of s user ev http' effs "Dispatch (End u) target ok"] by auto
  qed
  from 1 2 3 show ?thesis by simp
qed

text \<open>
  C8, as stated, fails. A gift event without a gift name whose repeat count is the string
  \<^verbatim>\<open>'5'\<close> makes the quantity formatting raise inside the handler; the exception is caught and
  no gift notification is dispatched. And a gift event that has an id but no name is announced
  under its id, not under \<^verbatim>\<open>'Gift'\<close>.
\<close>

theorem gift_string_count_counterexample:
  "lacks name_attrs (gift_object string_count_gift)
   \<and> on_gift started ''alice'' (Some string_count_gift) HttpOk = Inr []
   \<and> lacks [''name'', ''gift_name'', ''giftName''] (gift_object id_only_gift)
   \<and> on_gift started ''alice'' (Some id_only_gift) HttpOk
     = Inr [Dispatch (Gift ''alice'' (PInt 5655) (PInt 1) (PStr [])) (Some ''https://discord.test/hook'') True]"
  by code_simp

text \<open>
  C8, amended. The gift handler never lets an exception out. The gift name it takes is the first
  truthy value among the attributes \<^verbatim>\<open>name\<close>, \<^verbatim>\<open>gift_name\<close>, \<^verbatim>\<open>giftName\<close>, \<^verbatim>\<open>giftId\<close>,
  \<^verbatim>\<open>gift_id\<close> of the gift object and \<^verbatim>\<open>'Gift'\<close> when there is none; the count is the first truthy
  value among \<^verbatim>\<open>repeat_count\<close>, \<^verbatim>\<open>repeatCount\<close>, \<^verbatim>\<open>count\<close>, \<^verbatim>\<open>amount\<close> and 1 when there is
  none; the gifter name is the first truthy value among \<^verbatim>\<open>unique_id\<close>, \<^verbatim>\<open>uniqueId\<close>,
  \<^verbatim>\<open>nickname\<close>, \<^verbatim>\<open>name\<close> of the user and the empty string when there is none or no user. With an
  integer count the handler dispatches exactly one gift notification carrying these three
  values; with any other count it dispatches nothing.
\<close>

theorem on_gift_fields:
  "(\<exists>effs. on_gift s user event http = Inr effs)
   \<and> extract_gift None = (PStr ''Gift'', PInt 1, PStr [])
   \<and> extract_gift (Some ev)
      = ((case gift_object ev of None \<Rightarrow> PStr ''Gift''
          | Some g \<Rightarrow> first_truthy (map (getattr g) name_attrs) (PStr ''Gift'')),
         (case gift_object ev of None \<Rightarrow> PInt 1
          | Some g \<Rightarrow> first_truthy (map (getattr g) count_attrs) (PInt 1)),
         (case gifter_object ev of None \<Rightarrow> PStr []
          | Some u \<Rightarrow> first_truthy (map (getattr u) gifter_attrs) (PStr [])))
   \<and> (lacks name_attrs (gift_object ev) \<longrightarrow> fst (extract_gift (Some ev)) = PStr ''Gift'')
   \<and> (lacks count_attrs (gift_object ev) \<longrightarrow> fst (snd (extract_gift (Some ev))) = PInt 1)
   \<and> (lacks gifter_attrs (gifter_object ev) \<longrightarrow> snd (snd (extract_gift (Some ev))) = PStr [])
   \<and> on_gift s user event http
      = (case fst (snd (extract_gift event)) of
           PInt n \<Rightarrow> Inr [Dispatch (Gift user (fst (extract_gift event)) (PInt n) (snd (snd (extract_gift event))))
                          (gift_target s) (gift_target s \<noteq> None \<and> http = HttpOk)]
         | PStr c \<Rightarrow> Inr []
         | PNone \<Rightarrow> Inr [])"
proof -
  have 1: "\<exists>effs. on_gift s user event http = Inr effs" by (rule on_gift_returns)
  have 2: "extract_gift None = (PStr ''Gift'', PInt 1, PStr [])" by (simp add: extract_gift_def)
  have 3: "extract_gift (Some ev)
      = ((case gift_object ev of None \<Rightarrow> PStr ''Gift''
          | Some g \<Rightarrow> first_truthy (map (getattr g) name_attrs) (PStr ''Gift'')),
         (case gift_object ev of None \<Rightarrow> PInt 1
          | Some g \<Rightarrow> first_truthy (map (getattr g) count_attrs) (PInt 1)),
         (case gifter_object ev of None \<Rightarrow> PStr []
          | Some u \<Rightarrow> first_truthy (map (getattr u) gifter_attrs) (PStr [])))"
    by (simp add: extract_gift_def gifter_object_def Let_def gift_name_first_truthy
        repeat_count_first_truthy gifter_first_truthy split: option.splits)
  have 4: "lacks name_attrs (gift_object ev) \<longrightarrow> fst (extract_gift (Some ev)) = PStr ''Gift''"
    by (auto simp: lacks_def extract_gift_def Let_def split_beta gift_name_placeholder split: option.splits)
  have 5: "lacks count_attrs (gift_object ev) \<longrightarrow> fst (snd (extract_gift (Some ev))) = PInt 1"
    by (auto simp: lacks_def extract_gift_def Let_def split_beta repeat_count_placeholder split: option.splits)
  have 6: "lacks gifter_attrs (gifter_object ev) \<longrightarrow> snd (snd (extract_gift (Some ev))) = PStr []"
    by (auto simp: lacks_def gifter_object_def extract_gift_def Let_def split_beta gifter_placeholder split: option.splits)
  note 7 = on_gift_exact [of s user event http]
  from 1 2 3 4 5 6 7 show ?thesis by blast
qed

theorem on_gift_fields_witness:
  "lacks name_attrs (gift_object bare_gift) \<and> lacks count_attrs (gift_object bare_gift)
   \<and> lacks gifter_attrs (gifter_object bare_gift)
   \<and> extract_gift (Some bare_gift) = (PStr ''Gift'', PInt 1, PStr [])
   \<and> on_gift started ''alice'' (Some bare_gift) HttpOk
     = Inr [Dispatch (Gift ''alice'' (PStr ''Gift'') (PInt 1) (PStr [])) (Some ''https://discord.test/hook'') True]"
proof -
  have h: "lacks name_attrs (gift_object bare_gift)" "lacks count_attrs (gift_object bare_gift)"
    "lacks gifter_attrs (gifter_object bare_gift)"
    by (simp_all add: lacks_def gift_object_def gifter_object_def bare_gift_def name_attrs_def
        count_attrs_def gifter_attrs_def getattr_def)
  have t: "gift_target started = Some ''https://discord.test/hook''"
    by (simp add: gift_target_def started_def start_def init_def truthy_str_def url_or_env_def env_get_def)
  note th = on_gift_fields [of started "''alice''" "Some bare_gift" HttpOk bare_gift]
  from h th
  have e: "fst (extract_gift (Some bare_gift)) = PStr ''Gift''"
     "fst (snd (extract_gift (Some bare_gift))) = PInt 1"
     "snd (snd (extract_gift (Some bare_gift))) = PStr []"
    by blast+
  then have x: "extract_gift (Some bare_gift) = (PStr ''Gift'', PInt 1, PStr [])"
    by (metis prod.collapse)
  from th have "on_gift started ''alice'' (Some bare_gift) HttpOk
      = (case fst (snd (extract_gift (Some bare_gift))) of
           PInt n \<Rightarrow> Inr [Dispatch (Gift ''alice'' (fst (extract_gift (Some bare_gift))) (PInt n)
                            (snd (snd (extract_gift (Some bare_gift)))))
                          (gift_target started) (gift_target started \<noteq> None \<and> HttpOk = HttpOk)]
         | PStr c \<Rightarrow> Inr []
         | PNone \<Rightarrow> Inr [])"
    by blast
  then have "on_gift started ''alice'' (Some bare_gift) HttpOk
     = Inr [Dispatch (Gift ''alice'' (PStr ''Gift'') (PInt 1) (PStr [])) (Some ''https://discord.test/hook'') True]"
    by (simp add: x t)
  with h x show ?thesis by simp
qed

text \<open>
  C2, as stated, fails. Alice is announced and marked live; at 1100 her stream has ended, every
  gate of the end sequence passes and Discord refuses the end post. After the handler she is no
  longer in \<^verbatim>\<open>notified_users\<close> and is marked not live.
\<close>

theorem failed_end_closes_session_counterexample:
  "end_gates_pass (fst (run started announced_history)) ''alice'' 1100 (ProbeStatus 302)
   \<and> \<not> dispatch_succeeds (fst (run started announced_history)) HttpError
   \<and> ''alice'' \<in> notified_users (fst (run started announced_history))
   \<and> was_live_of (last_status (fst (run started announced_history))) ''alice''
   \<and> ''alice'' \<notin> notified_users (fst (run started failed_end_history))
   \<and> \<not> was_live_of (last_status (fst (run started failed_end_history))) ''alice''"
  by code_simp

text \<open>
  C2, amended. When every end gate passes and the end dispatch fails, the end bookkeeping is
  untouched (\<^verbatim>\<open>end_notification_sent\<close> and \<^verbatim>\<open>end_notification_cooldown\<close> are what they were), but
  the session is closed all the same: the user leaves \<^verbatim>\<open>notified_users\<close>, so that a later
  disconnect of the same user dispatches nothing and the failed end notification is not retried.
\<close>

theorem failed_end_keeps_end_flags:
  assumes "end_gates_pass s user now pr" and "\<not> dispatch_succeeds s http"
  shows "snd (on_disconnect s user now later t pr http)
           = [Dispatch (End user) (fst (send (live_webhook s) http)) False]
     \<and> end_notification_sent (fst (on_disconnect s user now later t pr http)) = end_notification_sent s
     \<and> end_notification_cooldown (fst (on_disconnect s user now later t pr http)) = end_notification_cooldown s
     \<and> user \<notin> notified_users (fst (on_disconnect s user now later t pr http))
     \<and> snd (on_disconnect (fst (on_disconnect s user now later t pr http)) user now' later' t' pr' http') = []"
proof -
  have n: "user \<notin> notified_users (fst (on_disconnect s user now later t pr http))"
    by (simp add: end_gates_dispatch [OF assms(1)] drop_client_def forget_connection_def)
  show ?thesis
    using assms(2) n not_notified_disconnect [OF n]
    by (simp add: end_gates_dispatch [OF assms(1)] drop_client_def forget_connection_def)
qed

theorem failed_end_keeps_end_flags_witness:
  "end_gates_pass (fst (run started announced_history)) ''alice'' 1100 (ProbeStatus 302)
   \<and> \<not> dispatch_succeeds (fst (run started announced_history)) HttpError
   \<and> end_notification_sent (fst (on_disconnect (fst (run started announced_history)) ''alice'' 1100 1106
         ''2024-05-01T10:18:26'' (ProbeStatus 302) HttpError))
       = end_notification_sent (fst (run started announced_history))
   \<and> ''alice'' \<notin> notified_users (fst (on_disconnect (fst (run started announced_history)) ''alice'' 1100 1106
         ''2024-05-01T10:18:26'' (ProbeStatus 302) HttpError))"
proof -
  have g: "end_gates_pass (fst (run started announced_history)) ''alice'' 1100 (ProbeStatus 302)"
    by code_simp
  have f: "\<not> dispatch_succeeds (fst (run started announced_history)) HttpError"
    by code_simp
  from failed_end_keeps_end_flags [OF g f, of 1106 "''2024-05-01T10:18:26''"] g f
  show ?thesis by blast
qed

text \<open>
  C3, evaluated on the code. Alice is announced at 1000 and her connection drops at 1010: no end
  notification, and she stays marked live. The poll cycle that follows finds her neither in
  \<^verbatim>\<open>current_live_users\<close> nor in \<^verbatim>\<open>successfully_connected\<close> (the disconnect handler removed her
  from both), falls through to the last branch of the loop and marks her not live.
\<close>

theorem blip_then_poll_marks_not_live:
  "snd (run started blip_history)
     = [AdapterConnect ''alice'', Dispatch (Start ''alice'' True) (Some ''https://discord.test/hook'') True]
   \<and> ''alice'' \<in> notified_users (fst (run started blip_history))
   \<and> was_live_of (last_status (fst (run started blip_history))) ''alice''
   \<and> \<not> was_live_of (last_status (fst (check_users (fst (run started blip_history))
          [''alice''] 1020 ''2024-05-01T10:17:00'' all_ok))) ''alice''"
  by code_simp

text \<open>
  C4, as stated, fails. Discord refuses Alice's start post; she stays out of
  \<^verbatim>\<open>notified_users\<close>, but the next connect event for her dispatches nothing.
\<close>

theorem failed_start_not_retried_counterexample:
  "snd (run started failed_start_history)
     = [AdapterConnect ''alice'', AdapterConnect ''bob'',
        Dispatch (Start ''alice'' True) (Some ''https://discord.test/hook'') False]
   \<and> ''alice'' \<notin> notified_users (fst (run started failed_start_history))
   \<and> snd (on_connect (fst (run started failed_start_history)) ''alice'' 1010 ''2024-05-01T10:16:50'' None HttpOk) = []"
  by code_simp

text \<open>
  C4, amended. A failed start dispatch leaves the user out of \<^verbatim>\<open>notified_users\<close> and marks the
  user live. A connect event for a user who is not notified dispatches nothing while the user is
  marked live, and dispatches the start notification when the user is not marked live: the
  dispatch is retried only after the live mark has been reset.
\<close>

theorem failed_start_retry:
  "(user \<notin> notified_users s \<and> \<not> was_live_of (last_status s) user \<and> \<not> dispatch_succeeds s http \<longrightarrow>
      (\<exists>h target. snd (on_connect s user now t room http) = [Dispatch (Start user h) target False])
      \<and> user \<notin> notified_users (fst (on_connect s user now t room http))
      \<and> was_live_of (last_status (fst (on_connect s user now t room http))) user)
   \<and> (user \<notin> notified_users s \<and> was_live_of (last_status s) user \<longrightarrow>
        snd (on_connect s user now t room http) = []
        \<and> user \<notin> notified_users (fst (on_connect s user now t room http))
        \<and> was_live_of (last_status (fst (on_connect s user now t room http))) user)
   \<and> (user \<notin> notified_users s \<and> \<not> was_live_of (last_status s) user \<longrightarrow>
        (\<exists>h target ok. snd (on_connect s user now t room http) = [Dispatch (Start user h) target ok]))"
proof -
  have 1: "user \<notin> notified_users s \<and> \<not> was_live_of (last_status s) user \<and> \<not> dispatch_succeeds s http \<longrightarrow>
      (\<exists>h target. snd (on_connect s user now t room http) = [Dispatch (Start user h) target False])
      \<and> user \<notin> notified_users (fst (on_connect s user now t room http))
      \<and> was_live_of (last_status (fst (on_connect s user now t room http))) user"
    by (simp add: connect_start_shape was_live_of_update live_status_def)
  have 2: "user \<notin> notified_users s \<and> was_live_of (last_status s) user \<longrightarrow>
        snd (on_connect s user now t room http) = []
        \<and> user \<notin> notified_users (fst (on_connect s user now t room http))
        \<and> was_live_of (last_status (fst (on_connect s user now t room http))) user"
    by (simp add: on_connect_def Let_def was_live_of_update live_status_def)
  have 3: "user \<notin> notified_users s \<and> \<not> was_live_of (last_status s) user \<longrightarrow>
        (\<exists>h target ok. snd (on_connect s user now t room http) = [Dispatch (Start user h) target ok])"
    by (simp add: connect_start_shape)
  from 1 2 3 show ?thesis by blast
qed

theorem failed_start_retry_witness:
  "(''alice'' \<notin> notified_users started \<and> \<not> was_live_of (last_status started) ''alice''
      \<and> \<not> dispatch_succeeds started HttpError)
   \<and> (''alice'' \<notin> notified_users (fst (run started failed_start_history))
      \<and> was_live_of (last_status (fst (run started failed_start_history))) ''alice'')
   \<and> snd (on_connect (fst (run started failed_start_history)) ''alice'' 1010 ''2024-05-01T10:16:50'' None HttpOk) = []
   \<and> (\<exists>h target. snd (on_connect started ''alice'' 1000 ''2024-05-01T10:16:40'' None HttpError)
         = [Dispatch (Start ''alice'' h) target False])
   \<and> snd (run (fst (run started failed_start_history)) retry_history)
       = [AdapterConnect ''alice'', AdapterDisconnect ''bob'',
          Dispatch (Start ''alice'' True) (Some ''https://discord.test/hook'') True]"
proof -
  have a: "''alice'' \<notin> notified_users started \<and> \<not> was_live_of (last_status started) ''alice''
      \<and> \<not> dispatch_succeeds started HttpError"
    by code_simp
  have b: "''alice'' \<notin> notified_users (fst (run started failed_start_history))
      \<and> was_live_of (last_status (fst (run started failed_start_history))) ''alice''"
    by code_simp
  from a failed_start_retry [of "''alice''" started HttpError 1000 "''2024-05-01T10:16:40''" None]
  have c: "\<exists>h target. snd (on_connect started ''alice'' 1000 ''2024-05-01T10:16:40'' None HttpError)
         = [Dispatch (Start ''alice'' h) target False]"
    by blast
  from b failed_start_retry [of "''alice''" "fst (run started failed_start_history)" HttpOk 1010 "''2024-05-01T10:16:50''" None]
  have d: "snd (on_connect (fst (run started failed_start_history)) ''alice'' 1010 ''2024-05-01T10:16:50'' None HttpOk) = []"
    by blast
  have e: "snd (run (fst (run started failed_start_history)) retry_history)
       = [AdapterConnect ''alice'', AdapterDisconnect ''bob'',
          Dispatch (Start ''alice'' True) (Some ''https://discord.test/hook'') True]"
    by code_simp
  from a b c d e show ?thesis by blast
qed




text \<open>
  C5, as stated, fails. Alice's start post is refused and her connection drops without any
  notification; Bob then connects and is the only user in \<^verbatim>\<open>current_live_users\<close> and in
  \<^verbatim>\<open>successfully_connected\<close>, yet his start notification carries \<^verbatim>\<open>is_host = False\<close>, because
  Alice is still marked live in \<^verbatim>\<open>last_status\<close>. And a poll cycle that announces a lone live
  user sends \<^verbatim>\<open>is_host = False\<close> as well.
\<close>

theorem lone_broadcaster_not_host_counterexample:
  "map fst (current_live_users (fst (run started lone_bob_history))) = [''bob'']
   \<and> successfully_connected (fst (run started lone_bob_history)) = {''bob''}
   \<and> snd (run started lone_bob_history)
     = [AdapterConnect ''alice'', AdapterConnect ''bob'',
        Dispatch (Start ''alice'' True) (Some ''https://discord.test/hook'') False,
        Dispatch (Start ''bob'' False) (Some ''https://discord.test/hook'') True]
   \<and> snd (check_users
            (unmarked_live\<lparr>current_live_users := [(''bob'', \<lparr>connected_at = ''2024-05-01T10:16:45'', room_id = None\<rparr>)]\<rparr>)
            [''bob''] 2000 ''2024-05-01T10:33:20'' all_ok)
     = [Dispatch (Start ''bob'' False) (Some ''https://discord.test/hook'') True]"
  by code_simp

text \<open>
  C5, amended. The election of a poll cycle returns a user of \<^verbatim>\<open>currently_live\<close> whose
  \<^verbatim>\<open>connected_at\<close> is the smallest, hence the only user when there is one, and the cycle stores
  it in \<^verbatim>\<open>host_priority\<close>. A start notification from the connect handler carries
  \<^verbatim>\<open>is_host = True\<close> exactly when no user is marked live in \<^verbatim>\<open>last_status\<close>; a start
  notification from the poll cycle carries \<^verbatim>\<open>is_host = True\<close> exactly when its user is the
  elected host and more than one user is live.
\<close>

theorem host_election:
  "(cl \<noteq> [] \<longrightarrow>
      (\<exists>x\<in>set cl. elect_host cl = Some (fst x)
          \<and> (\<forall>y\<in>set cl. connected_at (snd x) \<le> connected_at (snd y))))
   \<and> elect_host [x] = Some (fst x)
   \<and> ((truthy_str (svc_webhook_url s) \<or> truthy_str (env_webhook_url s)) \<and> users \<noteq> [] \<longrightarrow>
        host_priority (fst (check_users s users now t http))
          = elect_host (current_live_users (fst (check_users s users now t http))))
   \<and> (user \<notin> notified_users s \<and> \<not> was_live_of (last_status s) user \<longrightarrow>
        (\<exists>target ok. snd (on_connect s user now t room outcome)
           = [Dispatch (Start user (list_all (\<lambda>st. \<not> is_live st) (map snd (last_status s)))) target ok]))
   \<and> (Dispatch (Start u h) target ok \<in> set (snd (check_users s users now t http)) \<longrightarrow>
        h = (host_priority (fst (check_users s users now t http)) = Some u
             \<and> 1 < length (current_live_users (fst (check_users s users now t http)))))"
proof -
  have 1: "cl \<noteq> [] \<longrightarrow>
      (\<exists>x\<in>set cl. elect_host cl = Some (fst x)
          \<and> (\<forall>y\<in>set cl. connected_at (snd x) \<le> connected_at (snd y)))"
    using elect_host_earliest [of cl] by blast
  have 2: "elect_host [x] = Some (fst x)" by (rule elect_host_single)
  have 3: "(truthy_str (svc_webhook_url s) \<or> truthy_str (env_webhook_url s)) \<and> users \<noteq> [] \<longrightarrow>
        host_priority (fst (check_users s users now t http))
          = elect_host (current_live_users (fst (check_users s users now t http)))"
    using check_users_host [of s users now t http] by blast
  have 4: "user \<notin> notified_users s \<and> \<not> was_live_of (last_status s) user \<longrightarrow>
        (\<exists>target ok. snd (on_connect s user now t room outcome)
           = [Dispatch (Start user (list_all (\<lambda>st. \<not> is_live st) (map snd (last_status s)))) target ok])"
    by (simp add: connect_start_shape)
  have 5: "Dispatch (Start u h) target ok \<in> set (snd (check_users s users now t http)) \<longrightarrow>
        h = (host_priority (fst (check_users s users now t http)) = Some u
             \<and> 1 < length (current_live_users (fst (check_users s users now t http))))"
    using check_users_flag [of u h target ok s users now t http] by blast
  from 1 2 3 4 5 show ?thesis by blast
qed

theorem host_election_witness:
  "current_live_users unmarked_live \<noteq> []
   \<and> (truthy_str (env_webhook_url unmarked_live) \<and> [''bob'', ''alice''] \<noteq> [])
   \<and> (''alice'' \<notin> notified_users started \<and> \<not> was_live_of (last_status started) ''alice'')
   \<and> Dispatch (Start ''alice'' True) (Some ''https://discord.test/hook'') True
        \<in> set (snd (check_users unmarked_live [''bob'', ''alice''] 2000 ''2024-05-01T10:33:20'' all_ok))
   \<and> elect_host (current_live_users unmarked_live) = Some ''alice''
   \<and> host_priority (fst (check_users unmarked_live [''bob'', ''alice''] 2000 ''2024-05-01T10:33:20'' all_ok))
        = Some ''alice''
   \<and> 1 < length (current_live_users (fst (check_users unmarked_live [''bob'', ''alice''] 2000 ''2024-05-01T10:33:20'' all_ok)))
   \<and> (\<exists>target ok. snd (on_connect started ''alice'' 1000 ''2024-05-01T10:16:40'' None HttpOk)
           = [Dispatch (Start ''alice'' (list_all (\<lambda>st. \<not> is_live st) (map snd (last_status started)))) target ok])"
proof -
  have a: "current_live_users unmarked_live \<noteq> []" by code_simp
  have b: "truthy_str (env_webhook_url unmarked_live) \<and> [''bob'', ''alice''] \<noteq> []" by code_simp
  have c: "''alice'' \<notin> notified_users started \<and> \<not> was_live_of (last_status started) ''alice''" by code_simp
  have d: "Dispatch (Start ''alice'' True) (Some ''https://discord.test/hook'') True
        \<in> set (snd (check_users unmarked_live [''bob'', ''alice''] 2000 ''2024-05-01T10:33:20'' all_ok))"
    by code_simp
  have e: "elect_host (current_live_users unmarked_live) = Some ''alice''" by code_simp
  from d host_election [where s = unmarked_live and users = "[''bob'', ''alice'']" and now = 2000
      and t = "''2024-05-01T10:33:20''" and http = all_ok and u = "''alice''" and h = True
      and target = "Some ''https://discord.test/hook''" and ok = True]
  have f: "host_priority (fst (check_users unmarked_live [''bob'', ''alice''] 2000 ''2024-05-01T10:33:20'' all_ok))
        = Some ''alice''
     \<and> 1 < length (current_live_users (fst (check_users unmarked_live [''bob'', ''alice''] 2000 ''2024-05-01T10:33:20'' all_ok)))"
    by blast
  from c host_election [where s = started and user = "''alice''" and now = 1000
      and t = "''2024-05-01T10:16:40''" and room = None and outcome = HttpOk]
  have g: "\<exists>target ok. snd (on_connect started ''alice'' 1000 ''2024-05-01T10:16:40'' None HttpOk)
           = [Dispatch (Start ''alice'' (list_all (\<lambda>st. \<not> is_live st) (map snd (last_status started)))) target ok]"
    by blast
  from a b c d e f g show ?thesis by blast
qed

text \<open>
  C1, as stated, fails. Alice is announced; her stream ends at 1100 and Discord refuses the end
  post; she connects again at 1200 and is announced a second time, with no successful end
  notification in between.
\<close>

theorem repeated_start_counterexample:
  "snd (run started (failed_end_history @ [Connect ''alice'' 1200 ''2024-05-01T10:20:00'' None HttpOk]))
     = [AdapterConnect ''alice'',
        Dispatch (Start ''alice'' True) (Some ''https://discord.test/hook'') True,
        Dispatch (End ''alice'') (Some ''https://discord.test/hook'') False,
        Dispatch (Start ''alice'' True) (Some ''https://discord.test/hook'') True]
   \<and> \<not> starts_once True ''alice'' False
         (snd (run started (failed_end_history @ [Connect ''alice'' 1200 ''2024-05-01T10:20:00'' None HttpOk])))"
  by code_simp

text \<open>
  C1, amended. In every history of connect events, disconnect events, poll cycles, gift events
  and failed connection attempts of a service that has just been started, and for every
  broadcaster: once a start dispatch for the broadcaster has succeeded, no further start
  notification for it is dispatched, by the connect handler or by a poll cycle, until an end
  notification for it has been dispatched, successfully or not.
\<close>

theorem one_start_per_session:
  "starts_once False b False (snd (run (start (init env_url env_gift_url) url gift_url) evs))"
proof -
  have "live_marked (start (init env_url env_gift_url) url gift_url)"
    by (simp add: live_marked_def start_def init_def Let_def)
  then show ?thesis
    by (rule run_history) simp
qed

theorem one_start_per_session_witness:
  "starts_once False ''alice'' False
     (snd (run started (failed_end_history @ [Connect ''alice'' 1200 ''2024-05-01T10:20:00'' None HttpOk])))
   \<and> starts_once False ''alice'' False (snd (run started back_live_history))
   \<and> snd (run started back_live_history)
     = [AdapterConnect ''alice'',
        Dispatch (Start ''alice'' True) (Some ''https://discord.test/hook'') True,
        Dispatch (End ''alice'') (Some ''https://discord.test/hook'') True,
        Dispatch (Start ''alice'' True) (Some ''https://discord.test/hook'') True]"
proof -
  have e: "snd (run started back_live_history)
     = [AdapterConnect ''alice'',
        Dispatch (Start ''alice'' True) (Some ''https://discord.test/hook'') True,
        Dispatch (End ''alice'') (Some ''https://discord.test/hook'') True,
        Dispatch (Start ''alice'' True) (Some ''https://discord.test/hook'') True]"
    by code_simp
  from e one_start_per_session [of "''alice''" None None "Some ''https://discord.test/hook''" None]
  show ?thesis
    unfolding started_def by blast
qed

end
